theory Spec2Isabelle
  imports Main
begin

section \<open>Text\<close>

text \<open>
  A Python \<open>str\<close> is a sequence of Unicode code points. Code points are natural numbers, so
  that the replacement character U+FFFD of the lossy decoder is a value of the type; a literal is
  written \<open>str ''abc''\<close>.
\<close>

type_synonym codepoint = nat
type_synonym ustring = "codepoint list"
type_synonym byte = nat

definition str :: "string \<Rightarrow> ustring" where
  "str s = map of_char s"

text \<open>
  \<open>str.lower()\<close> on the ASCII letters. The program compares the lower-cased encoding argument
  with \<open>'auto'\<close> only; no code point outside ASCII lower-cases to one of the letters a, u, t, o,
  so leaving the other code points alone gives the comparison Python computes.
\<close>

definition lower_cp :: "codepoint \<Rightarrow> codepoint" where
  "lower_cp c = (if 65 \<le> c \<and> c \<le> 90 then c + 32 else c)"

definition lower :: "ustring \<Rightarrow> ustring" where
  "lower s = map lower_cp s"

text \<open>The decimal string of a Python integer, as \<open>f"{column_count}"\<close> formats it.\<close>

fun digits :: "nat \<Rightarrow> ustring" where
  "digits n = (if n < 10 then [48 + n] else digits (n div 10) @ [48 + n mod 10])"

declare digits.simps [simp del]

definition str_int :: "int \<Rightarrow> ustring" where
  "str_int i = (if i < 0 then 45 # digits (nat (- i)) else digits (nat i))"

section \<open>The substitution loop of \<open>re.sub\<close> with a callable\<close>

text \<open>
  The regular-expression engine is Python's library. A compiled pattern is taken as the function
  that gives, for a subject and a position, the lengths of the matches that start there, in the
  order in which the backtracking engine finds them.
\<close>

type_synonym span = "nat \<times> nat"
type_synonym pattern = "ustring \<Rightarrow> nat \<Rightarrow> nat list"

text \<open>
  One anchored attempt. With \<open>must_advance\<close> an empty match is a failure of that branch and
  the engine backtracks into the next one.
\<close>

definition match_at :: "pattern \<Rightarrow> ustring \<Rightarrow> nat \<Rightarrow> bool \<Rightarrow> nat option" where
  "match_at p t i must_advance = find (\<lambda>l. \<not> (must_advance \<and> l = 0)) (p t i)"

text \<open>\<open>scan p t i k\<close> tries the positions \<open>i, i + 1, \<dots>, i + k\<close> in turn.\<close>

fun scan :: "pattern \<Rightarrow> ustring \<Rightarrow> nat \<Rightarrow> nat \<Rightarrow> span option" where
  "scan p t i 0 =
     (case match_at p t i False of Some l \<Rightarrow> Some (i, i + l) | None \<Rightarrow> None)"
| "scan p t i (Suc k) =
     (case match_at p t i False of Some l \<Rightarrow> Some (i, i + l) | None \<Rightarrow> scan p t (Suc i) k)"

text \<open>
  The search for the leftmost match at or after \<open>s\<close>: \<open>must_advance\<close> holds for the attempt at
  \<open>s\<close> only; the end of the subject is a position too.
\<close>

definition search :: "pattern \<Rightarrow> ustring \<Rightarrow> nat \<Rightarrow> bool \<Rightarrow> span option" where
  "search p t s must_advance =
     (if length t < s then None
      else case match_at p t s must_advance of
             Some l \<Rightarrow> Some (s, s + l)
           | None \<Rightarrow> (if s < length t then scan p t (Suc s) (length t - Suc s) else None))"

lemma scan_bounds: "scan p t i k = Some (b, e) \<Longrightarrow> i \<le> b \<and> b \<le> e"
  by (induction k arbitrary: i) (fastforce split: option.splits)+

lemma match_at_advance: "match_at p t i True = Some l \<Longrightarrow> 0 < l"
  by (auto simp: match_at_def dest: find_Some_iff [THEN iffD1])

lemma search_bounds:
  assumes "search p t s adv = Some (b, e)"
  shows "s \<le> length t" and "s \<le> b" and "b \<le> e" and "adv \<Longrightarrow> s < e"
proof -
  show "s \<le> length t" using assms by (simp add: search_def split: if_splits)
  show "s \<le> b" using assms
    by (auto simp: search_def split: if_splits option.splits dest: scan_bounds)
  show "b \<le> e" using assms
    by (auto simp: search_def split: if_splits option.splits dest: scan_bounds)
  show "s < e" if "adv" using assms that
    by (auto simp: search_def split: if_splits option.splits
             dest!: scan_bounds match_at_advance)
qed

text \<open>
  The loop of \<open>re.sub\<close> with a callable: search from the end of the last match, append the
  subject up to the match to the list of pieces when it is not empty, call the callback on the
  match and append what it returns, and go on after the match, where an empty match forbids
  another empty match at the same place; after the last match the rest of the subject is
  appended. The callback's state is threaded through the calls in the order of the matches. A
  piece is marked with where it comes from; the result of \<open>re.sub\<close> is the pieces joined.
\<close>

datatype piece = Kept ustring | Item ustring

fun text_of :: "piece \<Rightarrow> ustring" where
  "text_of (Kept s) = s"
| "text_of (Item s) = s"

definition join :: "piece list \<Rightarrow> ustring" where
  "join ps = concat (map text_of ps)"

fun items :: "piece list \<Rightarrow> ustring list" where
  "items [] = []"
| "items (Kept s # ps) = items ps"
| "items (Item s # ps) = s # items ps"

function subx :: "pattern \<Rightarrow> (span \<Rightarrow> 's \<Rightarrow> ustring \<times> 's) \<Rightarrow> ustring \<Rightarrow> nat \<Rightarrow> bool \<Rightarrow> 's \<Rightarrow> piece list \<times> 's" where
  "subx p f t i adv st =
     (case search p t i adv of
        None \<Rightarrow> (if i < length t then [Kept (drop i t)] else [], st)
      | Some (b, e) \<Rightarrow>
          (case f (b, e) st of
             (item, st') \<Rightarrow>
               (case subx p f t e (e = b) st' of
                  (rest, st'') \<Rightarrow>
                    ((if i < b then [Kept (take (b - i) (drop i t))] else []) @ Item item # rest,
                     st''))))"
  by pat_completeness auto
termination
proof (relation "measure (\<lambda>(p, f, t, i, adv, st). 2 * (Suc (length t) - i) + (if adv then 0 else 1))",
       goal_cases)
  case 1
  show ?case by simp
next
  case (2 p f t i adv st x2 b e item st')
  then have s: "search p t i adv = Some (b, e)" by simp
  from search_bounds [OF s] show ?case by (cases adv) auto
qed

declare subx.simps [simp del]

text \<open>The matches the same scan finds, as \<open>re.finditer\<close> lists them.\<close>

function finditer_from :: "pattern \<Rightarrow> ustring \<Rightarrow> nat \<Rightarrow> bool \<Rightarrow> span list" where
  "finditer_from p t i adv =
     (case search p t i adv of
        None \<Rightarrow> []
      | Some (b, e) \<Rightarrow> (b, e) # finditer_from p t e (e = b))"
  by pat_completeness auto
termination
proof (relation "measure (\<lambda>(p, t, i, adv). 2 * (Suc (length t) - i) + (if adv then 0 else 1))",
       goal_cases)
  case 1
  show ?case by simp
next
  case (2 p t i adv x2 b e)
  then have s: "search p t i adv = Some (b, e)" by simp
  from search_bounds [OF s] show ?case by (cases adv) auto
qed

declare finditer_from.simps [simp del]

definition finditer :: "pattern \<Rightarrow> ustring \<Rightarrow> span list" where
  "finditer p t = finditer_from p t 0 False"

section \<open>The callback and the substitution pass\<close>

text \<open>
  \<open>replace_column_name\<close> is the closure of the source: \<open>column_count\<close> is its captured
  variable, read for the replacement and then incremented; the match itself is not looked at.
\<close>

definition replace_column_name :: "ustring \<Rightarrow> span \<Rightarrow> int \<Rightarrow> ustring \<times> int" where
  "replace_column_name column_prefix m column_count =
     (column_prefix @ str_int column_count, column_count + 1)"

text \<open>
  The pass over a compiled pattern: \<open>column_count = 1\<close>, then the substitution from position 0.
  The result is the substituted text and the counter after the pass.
\<close>

definition sub_pieces :: "pattern \<Rightarrow> ustring \<Rightarrow> ustring \<Rightarrow> piece list \<times> int" where
  "sub_pieces p column_prefix table_definition =
     subx p (replace_column_name column_prefix) table_definition 0 False 1"

definition sub_pass :: "pattern \<Rightarrow> ustring \<Rightarrow> ustring \<Rightarrow> ustring \<times> int" where
  "sub_pass p column_prefix table_definition =
     (case sub_pieces p column_prefix table_definition of
        (pieces, column_count) \<Rightarrow> (join pieces, column_count))"

text \<open>
  What the specification says of the pass, in its own words: the text between the matches is
  kept, and the match number \<open>n\<close> becomes the prefix followed by the decimal string of \<open>n\<close>.
\<close>

fun spec_numbered :: "ustring \<Rightarrow> nat \<Rightarrow> span list \<Rightarrow> ustring \<Rightarrow> int \<Rightarrow> ustring" where
  "spec_numbered t i [] column_prefix n = drop i t"
| "spec_numbered t i ((b, e) # ms) column_prefix n =
     take (b - i) (drop i t) @ column_prefix @ str_int n @ spec_numbered t e ms column_prefix (n + 1)"

text \<open>Matches in scan order that do not overlap: each starts at or after the end of the last.\<close>

fun in_scan_order :: "nat \<Rightarrow> span list \<Rightarrow> bool" where
  "in_scan_order i [] = True"
| "in_scan_order i ((b, e) # ms) = (i \<le> b \<and> b \<le> e \<and> in_scan_order e ms)"

section \<open>A fragment of the pattern language\<close>

text \<open>
  A compiled pattern of the library's for a fragment of the pattern language: a literal, \<open>.\<close>,
  \<open>\w\<close>, \<open>\d\<close>, \<open>\b\<close>, the empty pattern, concatenation, alternation, the greedy star, and the
  groups \<open>(?i:\<dots>)\<close> and \<open>(?-i:\<dots>)\<close> that switch \<open>IGNORECASE\<close> on and off for a part of the
  pattern. The fragment is that of ASCII patterns on ASCII subjects: for the other code points
  the library consults the Unicode tables, which are left out here, and the properties below
  that depend on them are stated for ASCII.

  \<open>ends\<close> lists the ends of the matches that start at \<open>i\<close> in the order of the backtracking
  engine: the left alternative before the right one, one more iteration of a star before none;
  an iteration of a star that consumes nothing ends the repetition where it stands. Where
  \<open>IGNORECASE\<close> is on, a literal is compared after both characters are lower-cased.
\<close>

datatype regex = Lit codepoint | AnyChar | WordChar | DigitChar | WordBoundary | Eps
  | Seq regex regex | Alt regex regex | Star regex | IFlag bool regex

definition is_word :: "codepoint \<Rightarrow> bool" where
  "is_word c =
     ((48 \<le> c \<and> c \<le> 57) \<or> (65 \<le> c \<and> c \<le> 90) \<or> c = 95 \<or> (97 \<le> c \<and> c \<le> 122))"

definition word_at :: "ustring \<Rightarrow> nat \<Rightarrow> bool" where
  "word_at t i = (i < length t \<and> is_word (t ! i))"

definition at_boundary :: "ustring \<Rightarrow> nat \<Rightarrow> bool" where
  "at_boundary t i = ((0 < i \<and> word_at t (i - 1)) \<noteq> word_at t i)"

definition ch_eq :: "bool \<Rightarrow> codepoint \<Rightarrow> codepoint \<Rightarrow> bool" where
  "ch_eq ignorecase a b = (if ignorecase then lower_cp a = lower_cp b else a = b)"

function (sequential) ends :: "bool \<Rightarrow> regex \<Rightarrow> ustring \<Rightarrow> nat \<Rightarrow> nat list" where
  "ends ic (Lit c) t i = (if i < length t \<and> ch_eq ic (t ! i) c then [Suc i] else [])"
| "ends ic AnyChar t i = (if i < length t \<and> t ! i \<noteq> 10 then [Suc i] else [])"
| "ends ic WordChar t i = (if word_at t i then [Suc i] else [])"
| "ends ic DigitChar t i = (if i < length t \<and> 48 \<le> t ! i \<and> t ! i \<le> 57 then [Suc i] else [])"
| "ends ic WordBoundary t i = (if at_boundary t i then [i] else [])"
| "ends ic Eps t i = [i]"
| "ends ic (Seq r s) t i = concat (map (ends ic s t) (ends ic r t i))"
| "ends ic (Alt r s) t i = ends ic r t i @ ends ic s t i"
| "ends ic (Star r) t i =
     concat (map (\<lambda>j. if i < j \<and> j \<le> length t then ends ic (Star r) t j else [j])
                 (ends ic r t i)) @ [i]"
| "ends ic (IFlag b r) t i = ends b r t i"
  by pat_completeness auto
termination
  by (relation "measures [\<lambda>(ic, r, t, i). size r, \<lambda>(ic, r, t, i). length t - i]") auto

declare ends.simps(9) [simp del]

definition rmatch :: "bool \<Rightarrow> regex \<Rightarrow> pattern" where
  "rmatch ic r t i = map (\<lambda>e. e - i) (ends ic r t i)"

text \<open>A pattern of ordinary characters is the sequence of its literals.\<close>

definition lits :: "ustring \<Rightarrow> regex" where
  "lits s = foldr (\<lambda>c r. Seq (Lit c) r) s Eps"




section \<open>Files, codecs and the log\<close>

text \<open>
  The exceptions the program can meet, with the part of Python's class hierarchy its handlers
  tell apart: \<open>FileNotFoundError\<close> is an \<open>OSError\<close> (of which \<open>IOError\<close> is another name),
  \<open>UnicodeError\<close>, which stands for its subclasses of decoding and encoding too, is a
  \<open>ValueError\<close>, and everything is an \<open>Exception\<close>. An exception carries its message, \<open>str(e)\<close>.
\<close>

datatype exc_class = FileNotFoundError | OSError | ReError | ValueError
  | UnicodeError | LookupError | OtherException

datatype exc = Exc exc_class ustring

definition issubclass :: "exc_class \<Rightarrow> exc_class \<Rightarrow> bool" where
  "issubclass c d =
     (c = d \<or> (c = FileNotFoundError \<and> d = OSError)
      \<or> (c = UnicodeError \<and> d = ValueError))"

text \<open>
  What a path names: nothing, in a directory where a file can be created (\<open>Absent\<close>); nothing,
  because a directory of the path is missing (\<open>NoDir\<close>); something that cannot be opened, as a
  directory or a file without permission (\<open>Denied\<close>); nothing at all, because the name is no
  path, as one with a NUL character, for which \<open>open\<close> raises \<open>ValueError\<close> (\<open>Invalid\<close>); a file
  that can be read only; a file that can be read and written.
\<close>

datatype node = Absent | NoDir | Denied | Invalid | ReadOnly "byte list" | Regular "byte list"

datatype level = INFO | ERROR

record world =
  fs :: "ustring \<Rightarrow> node"
  log :: "(level \<times> ustring) list"

text \<open>
  A codec, by the protocol of Python's error handlers: one step of the decoder on what is left
  of the input, under the handler it was opened with, either decodes some characters or finds
  an undecodable sequence, and in both cases consumes the first byte and \<open>n\<close> more; the error
  handler decides what an undecodable sequence becomes. A codec can also refuse to go on and
  raise \<open>UnicodeError\<close> without asking the handler: \<open>utf-16\<close> and \<open>utf-32\<close> do on a stream that
  has no byte order mark, \<open>idna\<close> and \<open>punycode\<close> do under every handler but \<open>strict\<close>, and
  \<open>undefined\<close> always does. The step on the empty input is the final call of the decoder. The
  encoder is strict.
\<close>

datatype errors = Strict | Replace

datatype dstep = Decoded ustring nat | Undecodable nat | Refused

record codec =
  decode_step :: "errors \<Rightarrow> byte list \<Rightarrow> dstep"
  encode :: "ustring \<Rightarrow> byte list option"

text \<open>The parsed command line: the attributes of \<open>args\<close> that \<open>main\<close> passes on.\<close>

record args =
  input_file :: ustring
  output_file :: ustring
  column_name_pattern :: ustring
  column_prefix :: ustring
  encoding :: ustring

text \<open>
  The libraries and the operating system the program runs on: \<open>parse_args\<close> of the parser that
  \<open>setup_argparse\<close> builds, on the words of the command line (\<open>Inl n\<close> when the parser ends the
  process itself with \<open>sys.exit(n)\<close>: status 2 after the usage message for a command line it
  does not accept, status 0 after the help); \<open>chardet.detect\<close> (its \<open>'encoding'\<close> entry); the
  codec registry; \<open>re.compile\<close> with the \<open>IGNORECASE\<close> flag (\<open>Inl\<close> the exception it raises:
  \<open>re.error\<close> for a malformed pattern, \<open>ValueError\<close> for one whose inline flags exclude each
  other); the message of an exception raised for a path or a name; the line separator; and
  how many bytes a device takes before it fails (\<open>None\<close>: all of them).
\<close>

record env =
  parse_args :: "ustring list \<Rightarrow> int + args"
  chardet_detect :: "byte list \<Rightarrow> ustring option"
  codecs_lookup :: "ustring \<Rightarrow> codec option"
  re_compile :: "ustring \<Rightarrow> bool \<Rightarrow> exc + pattern"
  os_strerror :: "exc_class \<Rightarrow> ustring \<Rightarrow> ustring"
  os_linesep :: ustring
  os_write :: "ustring \<Rightarrow> byte list \<Rightarrow> nat option"

definition raise :: "env \<Rightarrow> exc_class \<Rightarrow> ustring \<Rightarrow> exc" where
  "raise env c subject = Exc c (os_strerror env c subject)"

definition logging :: "level \<Rightarrow> ustring \<Rightarrow> world \<Rightarrow> world" where
  "logging lvl msg w = w\<lparr>log := log w @ [(lvl, msg)]\<rparr>"

text \<open>Opening a file for reading, in binary or in text mode, and reading all of it.\<close>

definition open_read :: "env \<Rightarrow> world \<Rightarrow> ustring \<Rightarrow> exc + byte list" where
  "open_read env w path =
     (case fs w path of
        Absent \<Rightarrow> Inl (raise env FileNotFoundError path)
      | NoDir \<Rightarrow> Inl (raise env FileNotFoundError path)
      | Denied \<Rightarrow> Inl (raise env OSError path)
      | Invalid \<Rightarrow> Inl (raise env ValueError path)
      | ReadOnly bs \<Rightarrow> Inr bs
      | Regular bs \<Rightarrow> Inr bs)"

text \<open>
  Decoding with an error handler: \<open>strict\<close> raises at the first undecodable sequence,
  \<open>replace\<close> puts U+FFFD for it and goes on after it; \<open>None\<close> is the \<open>UnicodeError\<close> of either
  the handler or the codec.
\<close>

fun decode :: "(errors \<Rightarrow> byte list \<Rightarrow> dstep) \<Rightarrow> errors \<Rightarrow> byte list \<Rightarrow> ustring option" where
  "decode step errs [] = (case step errs [] of Refused \<Rightarrow> None | _ \<Rightarrow> Some [])"
| "decode step errs (b # bs) =
     (case step errs (b # bs) of
        Decoded cs n \<Rightarrow> map_option ((@) cs) (decode step errs (drop n bs))
      | Undecodable n \<Rightarrow>
          (case errs of
             Strict \<Rightarrow> None
           | Replace \<Rightarrow> map_option ((#) 65533) (decode step errs (drop n bs)))
      | Refused \<Rightarrow> None)"

text \<open>
  What the specification says of the reader, in its own words: a placeholder character stands
  for every byte sequence that cannot be decoded. \<open>refuses\<close> tells when the codec itself
  gives up on the input under the \<open>replace\<close> handler.
\<close>

fun spec_lossy :: "(errors \<Rightarrow> byte list \<Rightarrow> dstep) \<Rightarrow> byte list \<Rightarrow> ustring" where
  "spec_lossy step [] = []"
| "spec_lossy step (b # bs) =
     (case step Replace (b # bs) of
        Decoded cs n \<Rightarrow> cs @ spec_lossy step (drop n bs)
      | Undecodable n \<Rightarrow> 65533 # spec_lossy step (drop n bs)
      | Refused \<Rightarrow> [])"

fun refuses :: "(errors \<Rightarrow> byte list \<Rightarrow> dstep) \<Rightarrow> byte list \<Rightarrow> bool" where
  "refuses step [] = (step Replace [] = Refused)"
| "refuses step (b # bs) =
     (case step Replace (b # bs) of
        Decoded cs n \<Rightarrow> refuses step (drop n bs)
      | Undecodable n \<Rightarrow> refuses step (drop n bs)
      | Refused \<Rightarrow> True)"

text \<open>Text mode with \<open>newline=None\<close>: on reading, \<open>\r\n\<close> and \<open>\r\<close> become \<open>\n\<close>.\<close>

fun universal_newlines :: "ustring \<Rightarrow> ustring" where
  "universal_newlines [] = []"
| "universal_newlines [c] = [if c = 13 then 10 else c]"
| "universal_newlines (c # d # s) =
     (if c = 13 \<and> d = 10 then 10 # universal_newlines s
      else if c = 13 then 10 # universal_newlines (d # s)
      else c # universal_newlines (d # s))"

text \<open>On writing, \<open>\n\<close> becomes the line separator of the platform.\<close>

definition to_linesep :: "env \<Rightarrow> ustring \<Rightarrow> ustring" where
  "to_linesep env s = concat (map (\<lambda>c. if c = 10 then os_linesep env else [c]) s)"

section \<open>The program\<close>

text \<open>
  The first block of the \<open>try\<close>: with \<open>encoding.lower() == 'auto'\<close> the input is read in binary
  mode and given to the detector, the result is logged, and \<open>None\<close> raises the
  \<open>ValueError\<close>; otherwise \<open>encoding\<close> stays what the caller gave.
\<close>

definition resolve_encoding :: "env \<Rightarrow> world \<Rightarrow> args \<Rightarrow> (exc + ustring) \<times> world" where
  "resolve_encoding env w a =
     (if lower (encoding a) = str ''auto'' then
        (case open_read env w (input_file a) of
           Inl e \<Rightarrow> (Inl e, w)
         | Inr rawdata \<Rightarrow>
             (case chardet_detect env rawdata of
                None \<Rightarrow>
                  (Inl (Exc ValueError (str ''Unable to automatically detect file encoding.'')),
                   logging INFO (str ''Detected encoding: None'') w)
              | Some detected \<Rightarrow>
                  (Inr detected, logging INFO (str ''Detected encoding: '' @ detected) w)))
      else (Inr (encoding a), w))"

text \<open>
  \<open>open(input_file, "r", encoding=encoding, errors='replace')\<close> and \<open>infile.read()\<close>: the file
  is opened, then the codec is looked up, then everything is decoded with the \<open>replace\<close>
  handler, under which only the codec itself can still raise.
\<close>

definition read_text :: "env \<Rightarrow> world \<Rightarrow> ustring \<Rightarrow> ustring \<Rightarrow> exc + ustring" where
  "read_text env w path enc =
     (case open_read env w path of
        Inl e \<Rightarrow> Inl e
      | Inr raw \<Rightarrow>
          (case codecs_lookup env enc of
             None \<Rightarrow> Inl (raise env LookupError enc)
           | Some c \<Rightarrow>
               (case decode (decode_step c) Replace raw of
                  None \<Rightarrow> Inl (raise env UnicodeError enc)
                | Some s \<Rightarrow> Inr (universal_newlines s))))"

text \<open>
  \<open>re.sub(column_name_pattern, replace_column_name, table_definition, flags=re.IGNORECASE)\<close>:
  the pattern is compiled with the flag, which can raise, and the pass runs.
\<close>

definition anonymize_text :: "env \<Rightarrow> ustring \<Rightarrow> ustring \<Rightarrow> ustring \<Rightarrow> exc + ustring" where
  "anonymize_text env pat pre table_definition =
     (case re_compile env pat True of
        Inl e \<Rightarrow> Inl e
      | Inr p \<Rightarrow> Inr (fst (sub_pass p pre table_definition)))"

text \<open>The input read and substituted: the statements between the two \<open>open\<close> calls.\<close>

definition substituted :: "env \<Rightarrow> world \<Rightarrow> args \<Rightarrow> ustring \<Rightarrow> exc + ustring" where
  "substituted env w a enc =
     (case read_text env w (input_file a) enc of
        Inl e \<Rightarrow> Inl e
      | Inr table_definition \<Rightarrow>
          anonymize_text env (column_name_pattern a) (column_prefix a) table_definition)"

text \<open>
  \<open>open(output_file, "w", encoding=encoding)\<close> and \<open>outfile.write\<close>: opening creates the file
  or empties it, then the codec is looked up, then the text is encoded and written.
\<close>

definition create_and_write :: "env \<Rightarrow> world \<Rightarrow> ustring \<Rightarrow> ustring \<Rightarrow> ustring \<Rightarrow> exc option \<times> world" where
  "create_and_write env w path enc s =
     (let w0 = w\<lparr>fs := (fs w)(path := Regular [])\<rparr> in
      case codecs_lookup env enc of
        None \<Rightarrow> (Some (raise env LookupError enc), w0)
      | Some c \<Rightarrow>
          (case encode c (to_linesep env s) of
             None \<Rightarrow> (Some (raise env UnicodeError enc), w0)
           | Some bytes \<Rightarrow>
               (case os_write env path bytes of
                  None \<Rightarrow> (None, w\<lparr>fs := (fs w)(path := Regular bytes)\<rparr>)
                | Some k \<Rightarrow>
                    (Some (raise env OSError path),
                     w\<lparr>fs := (fs w)(path := Regular (take k bytes))\<rparr>))))"

definition write_text :: "env \<Rightarrow> world \<Rightarrow> ustring \<Rightarrow> ustring \<Rightarrow> ustring \<Rightarrow> exc option \<times> world" where
  "write_text env w path enc s =
     (case fs w path of
        Absent \<Rightarrow> create_and_write env w path enc s
      | NoDir \<Rightarrow> (Some (raise env FileNotFoundError path), w)
      | Denied \<Rightarrow> (Some (raise env OSError path), w)
      | Invalid \<Rightarrow> (Some (raise env ValueError path), w)
      | ReadOnly bs \<Rightarrow> (Some (raise env OSError path), w)
      | Regular bs \<Rightarrow> create_and_write env w path enc s)"

text \<open>The rest of the \<open>try\<close> block, once \<open>encoding\<close> is settled: read, substitute, write, log.\<close>

definition process :: "env \<Rightarrow> world \<Rightarrow> args \<Rightarrow> ustring \<Rightarrow> exc option \<times> world" where
  "process env w a enc =
     (case substituted env w a enc of
        Inl e \<Rightarrow> (Some e, w)
      | Inr anonymized_definition \<Rightarrow>
          (case write_text env w (output_file a) enc anonymized_definition of
             (Some e, w') \<Rightarrow> (Some e, w')
           | (None, w') \<Rightarrow>
               (None,
                logging INFO (str ''Anonymized table definition written to '' @ output_file a) w')))"

definition try_body :: "env \<Rightarrow> world \<Rightarrow> args \<Rightarrow> exc option \<times> world" where
  "try_body env w a =
     (case resolve_encoding env w a of
        (Inl e, w') \<Rightarrow> (Some e, w')
      | (Inr enc, w') \<Rightarrow> process env w' a enc)"

text \<open>
  The \<open>except\<close> clauses, in the order of the source; the first whose class the exception is an
  instance of logs its message, and each ends in \<open>sys.exit(1)\<close>.
\<close>

definition handler_message :: "args \<Rightarrow> exc \<Rightarrow> ustring" where
  "handler_message a e =
     (case e of Exc c msg \<Rightarrow>
        if issubclass c FileNotFoundError
        then str ''Error: Input file '' @ [39] @ input_file a @ [39] @ str '' not found.''
        else if issubclass c OSError then str ''IOError: '' @ msg
        else if issubclass c ReError then str ''Regex Error: Invalid regular expression: '' @ msg
        else if issubclass c ValueError then str ''ValueError: '' @ msg
        else str ''An unexpected error occurred: '' @ msg)"

text \<open>
  \<open>anonymize_table_definition\<close>: \<open>None\<close> when the function returns, \<open>Some n\<close> when it leaves
  through \<open>sys.exit(n)\<close>.
\<close>

definition anonymize_table_definition :: "env \<Rightarrow> world \<Rightarrow> args \<Rightarrow> int option \<times> world" where
  "anonymize_table_definition env w a =
     (case try_body env w a of
        (None, w') \<Rightarrow> (None, w')
      | (Some e, w') \<Rightarrow> (Some 1, logging ERROR (handler_message a e) w'))"

text \<open>
  \<open>main\<close>, from the words of the command line to the exit status of the process:
  \<open>parser.parse_args()\<close> comes first and can end the process; then empty paths are refused; and
  the status is 0 when \<open>anonymize_table_definition\<close> returns. \<open>SystemExit\<close> is no \<open>Exception\<close>,
  so the \<open>except Exception\<close> of \<open>main\<close> lets it through.
\<close>

definition main :: "env \<Rightarrow> world \<Rightarrow> ustring list \<Rightarrow> int \<times> world" where
  "main env w argv =
     (case parse_args env argv of
        Inl status \<Rightarrow> (status, w)
      | Inr a \<Rightarrow>
          if input_file a = [] \<or> output_file a = []
          then (1, logging ERROR (str ''Error: Input and output file paths must be specified.'') w)
          else (case anonymize_table_definition env w a of
                  (None, w') \<Rightarrow> (0, w')
                | (Some n, w') \<Rightarrow> (n, w')))"

section \<open>An environment for the examples\<close>

text \<open>
  The ASCII codec: a byte below 128 is its character, any other byte is undecodable. The
  codec \<open>undefined\<close> raises on every call.
\<close>

definition ascii_step :: "errors \<Rightarrow> byte list \<Rightarrow> dstep" where
  "ascii_step errs bs =
     (case bs of [] \<Rightarrow> Decoded [] 0 | b # _ \<Rightarrow> if b < 128 then Decoded [b] 0 else Undecodable 0)"

definition ascii_encode :: "ustring \<Rightarrow> byte list option" where
  "ascii_encode s = (if list_all (\<lambda>c. c < 128) s then Some s else None)"

definition ascii_codec :: codec where
  "ascii_codec = \<lparr>decode_step = ascii_step, encode = ascii_encode\<rparr>"

definition undefined_codec :: codec where
  "undefined_codec = \<lparr>decode_step = (\<lambda>errs bs. Refused), encode = (\<lambda>s. None)\<rparr>"

text \<open>
  The default of \<open>--column_name_pattern\<close>,
  \<open>\b(\w+_name|\w+_address|\w+_phone|\w+_email|\w+_id)\b\<close>, as a string (92 is the backslash) and
  in the fragment; \<open>r+\<close> is \<open>r\<close> followed by \<open>r*\<close>.
\<close>

definition default_pattern_source :: ustring where
  "default_pattern_source =
     [92] @ str ''b('' @ [92] @ str ''w+_name|'' @ [92] @ str ''w+_address|'' @ [92]
     @ str ''w+_phone|'' @ [92] @ str ''w+_email|'' @ [92] @ str ''w+_id)'' @ [92] @ str ''b''"

definition plus :: "regex \<Rightarrow> regex" where
  "plus r = Seq r (Star r)"

definition default_pattern :: regex where
  "default_pattern =
     Seq WordBoundary
       (Seq (Alt (Seq (plus WordChar) (lits (str ''_name'')))
            (Alt (Seq (plus WordChar) (lits (str ''_address'')))
            (Alt (Seq (plus WordChar) (lits (str ''_phone'')))
            (Alt (Seq (plus WordChar) (lits (str ''_email'')))
                 (Seq (plus WordChar) (lits (str ''_id'')))))))
          WordBoundary)"

text \<open>
  An engine for three kinds of pattern: a run of word characters, compiled to the sequence of
  its literals; such a run in a group \<open>(?-i:\<dots>)\<close>; and the default pattern. It refuses every
  other pattern, with the message the library has for \<open>(\<close>.
\<close>

definition example_compile :: "ustring \<Rightarrow> bool \<Rightarrow> exc + pattern" where
  "example_compile pat ignorecase =
     (if list_all is_word pat then Inr (rmatch ignorecase (lits pat))
      else if take 5 pat = str ''(?-i:'' \<and> last pat = 41 \<and> list_all is_word (butlast (drop 5 pat))
      then Inr (rmatch ignorecase (IFlag False (lits (butlast (drop 5 pat)))))
      else if pat = default_pattern_source then Inr (rmatch ignorecase default_pattern)
      else Inl (Exc ReError (str ''missing ), unterminated subpattern at position 0'')))"

definition example_strerror :: "exc_class \<Rightarrow> ustring \<Rightarrow> ustring" where
  "example_strerror c subject =
     (if c = FileNotFoundError
      then str ''[Errno 2] No such file or directory: '' @ [39] @ subject @ [39]
      else if c = OSError then str ''[Errno 13] Permission denied: '' @ [39] @ subject @ [39]
      else if c = LookupError then str ''unknown encoding: '' @ subject
      else if c = UnicodeError then subject @ str '' encoding''
      else if c = ValueError then str ''embedded null byte''
      else str ''error: '' @ subject)"

text \<open>
  The parser of \<open>setup_argparse\<close> on the command lines of the examples: words that are paths,
  the three options written in full, each followed by a value that does not begin with a
  dash, \<open>-h\<close> or \<open>--help\<close>, and options the parser does not know. The help ends the process
  with status 0 where it stands; an option without its value is a usage error where it
  stands; an unknown option and a wrong number of paths are usage errors at the end of the
  command line. A word of two characters or more that begins with a dash (45) is taken for
  an option. The library accepts more than that (abbreviated options, \<open>--option=value\<close>,
  values that look like negative numbers), which the examples do not use.
\<close>

definition default_args :: args where
  "default_args =
     \<lparr>input_file = [], output_file = [],
      column_name_pattern = default_pattern_source, column_prefix = str ''column_'',
      encoding = str ''utf-8''\<rparr>"

definition dashed :: "ustring \<Rightarrow> bool" where
  "dashed x = (1 < length x \<and> hd x = 45)"

fun example_parse :: "ustring list \<Rightarrow> ustring list \<Rightarrow> bool \<Rightarrow> args \<Rightarrow> int + args" where
  "example_parse [] pos unknown a =
     (case pos of
        [i, out] \<Rightarrow> if unknown then Inl 2 else Inr (a\<lparr>input_file := i, output_file := out\<rparr>)
      | _ \<Rightarrow> Inl 2)"
| "example_parse [x] pos unknown a =
     (if x = str ''-h'' \<or> x = str ''--help'' then Inl 0
      else if x = str ''--column_name_pattern'' \<or> x = str ''--column_prefix''
              \<or> x = str ''--encoding'' then Inl 2
      else if dashed x then example_parse [] pos True a
      else example_parse [] (pos @ [x]) unknown a)"
| "example_parse (x # v # xs) pos unknown a =
     (if x = str ''-h'' \<or> x = str ''--help'' then Inl 0
      else if x = str ''--column_name_pattern''
      then (if dashed v then Inl 2
            else example_parse xs pos unknown (a\<lparr>column_name_pattern := v\<rparr>))
      else if x = str ''--column_prefix''
      then (if dashed v then Inl 2 else example_parse xs pos unknown (a\<lparr>column_prefix := v\<rparr>))
      else if x = str ''--encoding''
      then (if dashed v then Inl 2 else example_parse xs pos unknown (a\<lparr>encoding := v\<rparr>))
      else if dashed x then example_parse (v # xs) pos True a
      else example_parse (v # xs) (pos @ [x]) unknown a)"

definition example_env :: env where
  "example_env =
     \<lparr>parse_args = (\<lambda>argv. example_parse argv [] False default_args),
      chardet_detect = (\<lambda>bs. if bs \<noteq> [] \<and> list_all (\<lambda>b. b < 128) bs then Some (str ''ascii'') else None),
      codecs_lookup = (\<lambda>name. if lower name = str ''ascii'' then Some ascii_codec
                               else if lower name = str ''undefined'' then Some undefined_codec
                               else None),
      re_compile = example_compile,
      os_strerror = example_strerror,
      os_linesep = [10],
      os_write = (\<lambda>path bytes. None)\<rparr>"

definition example_world :: world where
  "example_world =
     \<lparr>fs = (\<lambda>p. if p = str ''in.sql'' then Regular (str ''CREATE TABLE t (user_name TEXT, x INT);'')
                else if p = str ''empty.sql'' then Regular []
                else if p = str ''locked.sql'' then Denied
                else if p = str ''nodir/out.sql'' then NoDir
                else Absent),
      log = []\<rparr>"

definition example_args :: args where
  "example_args =
     \<lparr>input_file = str ''in.sql'', output_file = str ''out.sql'',
      column_name_pattern = str ''name'', column_prefix = str ''column_'',
      encoding = str ''ascii''\<rparr>"


text \<open>Further command lines, arguments and a file with a byte that is not ASCII.\<close>

definition nodir_argv :: "ustring list" where
  "nodir_argv =
     [str ''in.sql'', str ''nodir/out.sql'', str ''--column_name_pattern'', str ''name'',
      str ''--encoding'', str ''ascii'']"


definition undefined_argv :: "ustring list" where
  "undefined_argv =
     [str ''in.sql'', str ''out.sql'', str ''--column_name_pattern'', str ''name'',
      str ''--encoding'', str ''undefined'']"

definition auto_args :: args where
  "auto_args = example_args\<lparr>encoding := str ''auto''\<rparr>"

definition empty_auto_args :: args where
  "empty_auto_args = example_args\<lparr>input_file := str ''empty.sql'', encoding := str ''auto''\<rparr>"

definition latin_world :: world where
  "latin_world = example_world\<lparr>fs := (fs example_world)(str ''in.sql'' := Regular [97, 233, 98])\<rparr>"

section \<open>Properties of the scan and of the pass\<close>

lemma subx_replace_column_name:
  "join (fst (subx p (replace_column_name pre) t i adv n))
       = spec_numbered t i (finditer_from p t i adv) pre n
   \<and> snd (subx p (replace_column_name pre) t i adv n) = n + int (length (finditer_from p t i adv))
   \<and> items (fst (subx p (replace_column_name pre) t i adv n))
       = map (\<lambda>k. pre @ str_int (n + int k)) [0..<length (finditer_from p t i adv)]"
proof (induction p t i adv arbitrary: n rule: finditer_from.induct)
  case (1 p t i adv)
  show ?case
  proof (cases "search p t i adv")
    case None
    then show ?thesis
      by (simp add: subx.simps [of p _ t i adv] finditer_from.simps [of p t i adv] join_def)
  next
    case (Some be)
    obtain b e where be: "be = (b, e)" by (cases be)
    obtain ps k where r: "subx p (replace_column_name pre) t e (e = b) (n + 1) = (ps, k)"
      by (cases "subx p (replace_column_name pre) t e (e = b) (n + 1)")
    have fi: "finditer_from p t i adv = (b, e) # finditer_from p t e (e = b)"
      using Some be by (simp add: finditer_from.simps [of p t i adv])
    have sx: "subx p (replace_column_name pre) t i adv n
        = ((if i < b then [Kept (take (b - i) (drop i t))] else []) @ Item (pre @ str_int n) # ps, k)"
      using Some be r by (simp add: subx.simps [of p _ t i adv] replace_column_name_def)
    from "1.IH" [OF Some [unfolded be] refl, of "n + 1"] r
    have ih: "join ps = spec_numbered t e (finditer_from p t e (e = b)) pre (n + 1)"
      "k = n + 1 + int (length (finditer_from p t e (e = b)))"
      "items ps = map (\<lambda>k. pre @ str_int (n + 1 + int k)) [0..<length (finditer_from p t e (e = b))]"
      by simp_all
    have j: "join ((if i < b then [Kept (take (b - i) (drop i t))] else []) @ Item (pre @ str_int n) # ps)
        = take (b - i) (drop i t) @ pre @ str_int n @ join ps"
      by (simp add: join_def)
    have it: "items ((if i < b then [Kept (take (b - i) (drop i t))] else []) @ Item (pre @ str_int n) # ps)
        = (pre @ str_int n) # items ps"
      by simp
    have m: "map (\<lambda>k. pre @ str_int (n + int k)) [0..<Suc (length (finditer_from p t e (e = b)))]
        = (pre @ str_int n) # map (\<lambda>k. pre @ str_int (n + 1 + int k)) [0..<length (finditer_from p t e (e = b))]"
      by (simp add: upt_rec [of 0] map_Suc_upt [symmetric] del: upt_Suc) (simp add: add.commute add.left_commute)
    show ?thesis
      unfolding sx fi using ih j it m by simp
  qed
qed

lemma match_at_mem: "match_at p t i adv = Some l \<Longrightarrow> l \<in> set (p t i)"
  unfolding match_at_def find_Some_iff by auto

lemma scan_mem: "scan p t i k = Some (b, e) \<Longrightarrow> b \<le> i + k \<and> e - b \<in> set (p t b)"
  by (induction k arbitrary: i) (fastforce split: option.splits dest: match_at_mem)+

lemma search_mem:
  assumes "search p t s adv = Some (b, e)"
  shows "b \<le> length t" and "e - b \<in> set (p t b)"
proof -
  show "b \<le> length t" using assms
    by (auto simp: search_def split: if_splits option.splits dest!: scan_mem)
  show "e - b \<in> set (p t b)" using assms
    by (auto simp: search_def split: if_splits option.splits dest!: scan_mem match_at_mem)
qed

lemma finditer_from_order: "in_scan_order i (finditer_from p t i adv)"
proof (induction p t i adv rule: finditer_from.induct)
  case (1 p t i adv)
  show ?case
  proof (cases "search p t i adv")
    case None
    then show ?thesis by (simp add: finditer_from.simps [of p t i adv])
  next
    case (Some be)
    obtain b e where be: "be = (b, e)" by (cases be)
    from "1.IH" [OF Some [unfolded be] refl] Some be search_bounds [OF Some [unfolded be]]
    show ?thesis
      by (simp add: finditer_from.simps [of p t i adv])
  qed
qed

lemma finditer_from_matches:
  "list_all (\<lambda>(b, e). b \<le> length t \<and> e - b \<in> set (p t b)) (finditer_from p t i adv)"
proof (induction p t i adv rule: finditer_from.induct)
  case (1 p t i adv)
  show ?case
  proof (cases "search p t i adv")
    case None
    then show ?thesis by (simp add: finditer_from.simps [of p t i adv])
  next
    case (Some be)
    obtain b e where be: "be = (b, e)" by (cases be)
    from "1.IH" [OF Some [unfolded be] refl] Some be search_mem [OF Some [unfolded be]]
    show ?thesis
      by (simp add: finditer_from.simps [of p t i adv])
  qed
qed




section \<open>Case-insensitive matching in the fragment\<close>








section \<open>Properties of the run\<close>

lemma logging_simps [simp]:
  "fs (logging lvl msg w) = fs w" "log (logging lvl msg w) = log w @ [(lvl, msg)]"
  by (simp_all add: logging_def)

lemma resolve_encoding_fs: "fs (snd (resolve_encoding env w a)) = fs w"
  by (simp add: resolve_encoding_def split: sum.splits option.splits)

lemma process_not_substituted:
  "substituted env w a enc = Inl e \<Longrightarrow> process env w a enc = (Some e, w)"
  by (simp add: process_def)

lemma try_body_early:
  assumes "resolve_encoding env w a = (Inl e, w')"
  shows "try_body env w a = (Some e, w')" and "fs w' = fs w"
  using assms resolve_encoding_fs [of env w a] by (simp_all add: try_body_def)

lemma try_body_not_substituted:
  assumes "resolve_encoding env w a = (Inr enc, w')" and "substituted env w' a enc = Inl e"
  shows "try_body env w a = (Some e, w')" and "fs w' = fs w"
  using assms resolve_encoding_fs [of env w a] by (simp_all add: try_body_def process_def)

lemma atd_failed:
  "try_body env w a = (Some e, w') \<Longrightarrow>
     anonymize_table_definition env w a = (Some 1, logging ERROR (handler_message a e) w')"
  by (simp add: anonymize_table_definition_def)


lemma invalid_pattern_not_substituted:
  "re_compile env (column_name_pattern a) True = Inl m \<Longrightarrow> \<exists>e. substituted env w a enc = Inl e"
  by (simp add: substituted_def anonymize_text_def split: sum.splits)

lemma unreadable_not_substituted:
  "open_read env w (input_file a) = Inl e \<Longrightarrow> substituted env w a enc = Inl e"
  by (simp add: substituted_def read_text_def)

lemma resolve_cases:
  obtains (failed) e w' where "resolve_encoding env w a = (Inl e, w')"
  | (resolved) enc w' where "resolve_encoding env w a = (Inr enc, w')"
  by (cases "resolve_encoding env w a") (metis sum.exhaust_sel prod.collapse surj_pair sumE)

lemma resolve_encoding_open:
  assumes "resolve_encoding env w a = (Inr enc, w')"
  shows "open_read env w' p = open_read env w p"
  using resolve_encoding_fs [of env w a] assms by (simp add: open_read_def)

lemma untouched_if:
  assumes "\<And>enc w'. resolve_encoding env w a = (Inr enc, w') \<Longrightarrow> \<exists>e. substituted env w' a enc = Inl e"
  shows "fs (snd (anonymize_table_definition env w a)) = fs w \<and>
         fst (anonymize_table_definition env w a) = Some 1"
proof (cases rule: resolve_cases [of env w a])
  case (failed e w')
  from try_body_early [OF failed] show ?thesis by (simp add: atd_failed)
next
  case (resolved enc w')
  from assms [OF resolved] obtain e where "substituted env w' a enc = Inl e" ..
  from try_body_not_substituted [OF resolved this] show ?thesis by (simp add: atd_failed)
qed

lemma handler_message_cases:
  "handler_message a (Exc c msg) =
     (if c = FileNotFoundError
      then str ''Error: Input file '' @ [39] @ input_file a @ [39] @ str '' not found.''
      else if c = OSError then str ''IOError: '' @ msg
      else if c = ReError then str ''Regex Error: Invalid regular expression: '' @ msg
      else if c = ValueError \<or> c = UnicodeError then str ''ValueError: '' @ msg
      else str ''An unexpected error occurred: '' @ msg)"
  by (cases c) (simp_all add: handler_message_def issubclass_def)



lemma main_failed:
  assumes "parse_args env argv = Inr a" and "input_file a \<noteq> []" and "output_file a \<noteq> []"
    and "try_body env w a = (Some e, w')"
  shows "main env w argv = (1, logging ERROR (handler_message a e) w')"
  using assms by (simp add: main_def atd_failed)




lemma open_read_readable:
  "fs w path = Regular raw \<or> fs w path = ReadOnly raw \<Longrightarrow> open_read env w path = Inr raw"
  by (auto simp: open_read_def)

lemma detection_failure_raises:
  assumes "lower (encoding a) = str ''auto''" and "open_read env w (input_file a) = Inr rawdata"
    and "chardet_detect env rawdata = None"
  shows "try_body env w a =
           (Some (Exc ValueError (str ''Unable to automatically detect file encoding.'')),
            logging INFO (str ''Detected encoding: None'') w)"
  using assms by (simp add: try_body_def resolve_encoding_def)

lemma invalid_pattern_raises:
  assumes "resolve_encoding env w a = (Inr enc, w')"
    and "read_text env w' (input_file a) enc = Inr table_definition"
    and "re_compile env (column_name_pattern a) True = Inl e"
  shows "try_body env w a = (Some e, w')"
  using assms by (simp add: try_body_def process_def substituted_def anonymize_text_def)

section \<open>Properties of the writer\<close>


lemma write_text_creates:
  assumes "fs w path = Absent \<or> fs w path = Regular old"
  shows "write_text env w path enc s = create_and_write env w path enc s"
  using assms by (auto simp: write_text_def)


lemma write_text_written:
  assumes "fs w path = Absent \<or> fs w path = Regular old" and "codecs_lookup env enc = Some c"
    and "encode c (to_linesep env s) = Some bytes" and "os_write env path bytes = None"
  shows "write_text env w path enc s = (None, w\<lparr>fs := (fs w)(path := Regular bytes)\<rparr>)"
  using assms(2,3,4) unfolding write_text_creates [OF assms(1)]
  by (simp add: create_and_write_def Let_def)


section \<open>Properties of the reader and of the sentinel\<close>

lemma decode_replace:
  "decode step Replace bs = (if refuses step bs then None else Some (spec_lossy step bs))"
proof (induction step bs rule: spec_lossy.induct)
  case (1 step)
  show ?case by (cases "step Replace []") simp_all
next
  case (2 step b bs)
  then show ?case by (cases "step Replace (b # bs)") simp_all
qed

lemma never_refuses: "(\<And>x. step Replace x \<noteq> Refused) \<Longrightarrow> \<not> refuses step bs"
proof (induction step bs rule: spec_lossy.induct)
  case (1 step)
  then show ?case by simp
next
  case (2 step b bs)
  then show ?case by (cases "step Replace (b # bs)") simp_all
qed

lemma decode_strict_replace:
  "(\<forall>x. step Replace x = step Strict x) \<Longrightarrow> decode step Strict bs = Some s \<Longrightarrow>
     decode step Replace bs = Some s"
proof (induction step bs arbitrary: s rule: spec_lossy.induct)
  case (1 step)
  then show ?case by simp
next
  case (2 step b bs)
  then show ?case by (cases "step Strict (b # bs)") auto
qed

lemma read_text_readable:
  assumes "fs w path = Regular raw \<or> fs w path = ReadOnly raw" and "codecs_lookup env enc = Some c"
  shows "read_text env w path enc =
           (if refuses (decode_step c) raw then Inl (raise env UnicodeError enc)
            else Inr (universal_newlines (spec_lossy (decode_step c) raw)))"
  using assms(2) by (simp add: read_text_def open_read_readable [OF assms(1)] decode_replace)

lemma read_text_unknown_encoding:
  assumes "fs w path = Regular raw \<or> fs w path = ReadOnly raw" and "codecs_lookup env enc = None"
  shows "read_text env w path enc = Inl (raise env LookupError enc)"
  using assms(2) by (simp add: read_text_def open_read_readable [OF assms(1)])

lemma read_text_unicode_error:
  assumes "read_text env w path enc = Inl (Exc UnicodeError msg)"
  shows "\<exists>raw c. (fs w path = Regular raw \<or> fs w path = ReadOnly raw)
           \<and> codecs_lookup env enc = Some c \<and> refuses (decode_step c) raw"
  using assms
  by (auto simp: read_text_def open_read_def raise_def decode_replace
           split: sum.splits option.splits node.splits if_splits)

lemma process_unknown_encoding:
  assumes "fs w (input_file a) = Regular raw \<or> fs w (input_file a) = ReadOnly raw"
    and "codecs_lookup env enc = None"
  shows "process env w a enc = (Some (raise env LookupError enc), w)"
  by (simp add: process_def substituted_def read_text_unknown_encoding [OF assms])

lemma process_refused:
  assumes "fs w (input_file a) = Regular raw \<or> fs w (input_file a) = ReadOnly raw"
    and "codecs_lookup env enc = Some c" and "refuses (decode_step c) raw"
  shows "process env w a enc = (Some (raise env UnicodeError enc), w)"
  using assms(3) by (simp add: process_def substituted_def read_text_readable [OF assms(1,2)])

lemma substituted_readable:
  assumes "fs w (input_file a) = Regular raw \<or> fs w (input_file a) = ReadOnly raw"
    and "codecs_lookup env enc = Some c" and "\<not> refuses (decode_step c) raw"
    and "re_compile env (column_name_pattern a) True = Inr p"
  shows "substituted env w a enc =
           Inr (fst (sub_pass p (column_prefix a)
                  (universal_newlines (spec_lossy (decode_step c) raw))))"
  using assms(3,4) by (simp add: substituted_def anonymize_text_def read_text_readable [OF assms(1,2)])

lemma process_written:
  assumes "fs w (input_file a) = Regular raw \<or> fs w (input_file a) = ReadOnly raw"
    and "codecs_lookup env enc = Some c" and "\<not> refuses (decode_step c) raw"
    and "re_compile env (column_name_pattern a) True = Inr p"
    and "fs w (output_file a) = Absent \<or> fs w (output_file a) = Regular old"
    and "encode c (to_linesep env (fst (sub_pass p (column_prefix a)
           (universal_newlines (spec_lossy (decode_step c) raw))))) = Some bytes"
    and "os_write env (output_file a) bytes = None"
  shows "process env w a enc =
           (None, w\<lparr>fs := (fs w)(output_file a := Regular bytes),
                    log := log w @ [(INFO, str ''Anonymized table definition written to ''
                                           @ output_file a)]\<rparr>)"
  by (simp add: process_def substituted_readable [OF assms(1,2,3,4)]
        write_text_written [OF assms(5) assms(2) assms(6) assms(7)] logging_def)

lemma atd_of_process:
  assumes "resolve_encoding env w a = (Inr enc, w1)"
  shows "anonymize_table_definition env w a =
           (case process env w1 a enc of
              (None, w') \<Rightarrow> (None, w')
            | (Some e, w') \<Rightarrow> (Some 1, logging ERROR (handler_message a e) w'))"
  using assms by (simp add: anonymize_table_definition_def try_body_def)

lemma resolve_detected:
  assumes "lower (encoding a) = str ''auto''"
    and "fs w (input_file a) = Regular raw \<or> fs w (input_file a) = ReadOnly raw"
  shows "resolve_encoding env w a =
           (case chardet_detect env raw of
              None \<Rightarrow> (Inl (Exc ValueError (str ''Unable to automatically detect file encoding.'')),
                       logging INFO (str ''Detected encoding: None'') w)
            | Some detected \<Rightarrow>
                (Inr detected, logging INFO (str ''Detected encoding: '' @ detected) w))"
  using assms(1) by (simp add: resolve_encoding_def open_read_readable [OF assms(2)])

lemma resolve_explicit:
  "lower (encoding a) \<noteq> str ''auto'' \<Longrightarrow> resolve_encoding env w a = (Inr (encoding a), w)"
  by (simp add: resolve_encoding_def)

lemma lower_auto_iff:
  "lower s = str ''auto'' \<longleftrightarrow>
     (\<exists>c1 c2 c3 c4. s = [c1, c2, c3, c4] \<and> (c1 = 97 \<or> c1 = 65) \<and> (c2 = 117 \<or> c2 = 85)
        \<and> (c3 = 116 \<or> c3 = 84) \<and> (c4 = 111 \<or> c4 = 79))"
  (is "?L \<longleftrightarrow> ?R")
proof
  assume ?L
  then have "map lower_cp s = [97, 117, 116, 111]" by (simp add: lower_def str_def)
  then obtain c1 c2 c3 c4 where s: "s = [c1, c2, c3, c4]"
    and c: "lower_cp c1 = 97" "lower_cp c2 = 117" "lower_cp c3 = 116" "lower_cp c4 = 111"
    by (auto simp: map_eq_Cons_conv)
  from c have "(c1 = 97 \<or> c1 = 65) \<and> (c2 = 117 \<or> c2 = 85) \<and> (c3 = 116 \<or> c3 = 84) \<and> (c4 = 111 \<or> c4 = 79)"
    unfolding lower_cp_def by (auto split: if_splits)
  with s show ?R by blast
next
  assume ?R
  then show ?L by (auto simp: lower_def str_def lower_cp_def)
qed

lemma resolve_encoding_auto_cong:
  assumes "lower enc = str ''auto''"
  shows "resolve_encoding env w (a\<lparr>encoding := enc\<rparr>) = resolve_encoding env w (a\<lparr>encoding := str ''auto''\<rparr>)"
proof -
  have "lower (str ''auto'') = str ''auto''" by (simp add: lower_def str_def lower_cp_def)
  then show ?thesis using assms by (simp add: resolve_encoding_def)
qed

lemma process_encoding_irrelevant: "process env w (a\<lparr>encoding := x\<rparr>) enc = process env w a enc"
  by (simp add: process_def substituted_def split: sum.splits prod.splits option.splits)

lemma handler_message_encoding: "handler_message (a\<lparr>encoding := x\<rparr>) e = handler_message a e"
  by (cases e) (simp add: handler_message_def)

lemma atd_encoding_cong:
  assumes "resolve_encoding env w (a\<lparr>encoding := x\<rparr>) = resolve_encoding env w (a\<lparr>encoding := y\<rparr>)"
  shows "anonymize_table_definition env w (a\<lparr>encoding := x\<rparr>)
       = anonymize_table_definition env w (a\<lparr>encoding := y\<rparr>)"
  using assms
  by (simp add: anonymize_table_definition_def try_body_def process_encoding_irrelevant
        handler_message_encoding split: sum.splits prod.splits option.splits)

lemma atd_encoding_explicit:
  assumes "lower detected \<noteq> str ''auto''"
  shows "anonymize_table_definition env w (a\<lparr>encoding := detected\<rparr>)
       = (case process env w a detected of
            (None, w') \<Rightarrow> (None, w')
          | (Some e, w') \<Rightarrow> (Some 1, logging ERROR (handler_message a e) w'))"
  using assms
  by (simp add: anonymize_table_definition_def try_body_def resolve_encoding_def
        process_encoding_irrelevant handler_message_encoding split: prod.splits option.splits)

lemma raise_detector_irrelevant: "raise (env\<lparr>chardet_detect := f\<rparr>) c x = raise env c x"
  by (simp add: raise_def)

lemma read_text_detector_irrelevant:
  "read_text (env\<lparr>chardet_detect := f\<rparr>) w path enc = read_text env w path enc"
  by (simp add: read_text_def open_read_def raise_detector_irrelevant
        split: node.splits sum.splits option.splits)

lemma to_linesep_detector_irrelevant:
  "to_linesep (env\<lparr>chardet_detect := f\<rparr>) s = to_linesep env s"
  by (simp add: to_linesep_def cong: if_cong)

lemma create_and_write_detector_irrelevant:
  "create_and_write (env\<lparr>chardet_detect := f\<rparr>) w path enc s = create_and_write env w path enc s"
  by (simp add: create_and_write_def to_linesep_detector_irrelevant raise_detector_irrelevant Let_def
        cong: option.case_cong)

lemma write_text_detector_irrelevant:
  "write_text (env\<lparr>chardet_detect := f\<rparr>) w path enc s = write_text env w path enc s"
  by (simp add: write_text_def create_and_write_detector_irrelevant raise_detector_irrelevant
        cong: node.case_cong)

lemma anonymize_text_detector_irrelevant:
  "anonymize_text (env\<lparr>chardet_detect := f\<rparr>) pat pre t = anonymize_text env pat pre t"
  by (simp add: anonymize_text_def)

lemma process_detector_irrelevant:
  "process (env\<lparr>chardet_detect := f\<rparr>) w a enc = process env w a enc"
  by (simp add: process_def substituted_def anonymize_text_detector_irrelevant
        read_text_detector_irrelevant write_text_detector_irrelevant cong: sum.case_cong)

lemma atd_detector_irrelevant:
  assumes "lower (encoding a) \<noteq> str ''auto''"
  shows "anonymize_table_definition (env\<lparr>chardet_detect := f\<rparr>) w a
       = anonymize_table_definition env w a"
  using assms
  by (simp add: anonymize_table_definition_def try_body_def resolve_encoding_def
        process_detector_irrelevant)

section \<open>Properties of the whole run\<close>








lemma atd_unknown_encoding:
  assumes "resolve_encoding env w a = (Inr enc, w1)"
    and "fs w (input_file a) = Regular raw \<or> fs w (input_file a) = ReadOnly raw"
    and "codecs_lookup env enc = None"
  shows "anonymize_table_definition env w a =
           (Some 1, logging ERROR (str ''An unexpected error occurred: ''
                                   @ os_strerror env LookupError enc) w1)"
proof -
  have "fs w1 = fs w" using resolve_encoding_fs [of env w a] assms(1) by simp
  then have r: "fs w1 (input_file a) = Regular raw \<or> fs w1 (input_file a) = ReadOnly raw"
    using assms(2) by simp
  show ?thesis
    by (simp add: atd_of_process [OF assms(1)] process_unknown_encoding [OF r assms(3)]
          raise_def handler_message_cases)
qed

lemma atd_codec_refused:
  assumes "resolve_encoding env w a = (Inr enc, w1)"
    and "fs w (input_file a) = Regular raw \<or> fs w (input_file a) = ReadOnly raw"
    and "codecs_lookup env enc = Some c" and "refuses (decode_step c) raw"
  shows "anonymize_table_definition env w a =
           (Some 1, logging ERROR (str ''ValueError: '' @ os_strerror env UnicodeError enc) w1)"
proof -
  have "fs w1 = fs w" using resolve_encoding_fs [of env w a] assms(1) by simp
  then have r: "fs w1 (input_file a) = Regular raw \<or> fs w1 (input_file a) = ReadOnly raw"
    using assms(2) by simp
  show ?thesis
    by (simp add: atd_of_process [OF assms(1)] process_refused [OF r assms(3,4)]
          raise_def handler_message_cases)
qed

lemma atd_refused:
  assumes "lower (encoding a) \<noteq> str ''auto''"
    and "fs w (input_file a) = Regular raw \<or> fs w (input_file a) = ReadOnly raw"
    and "codecs_lookup env (encoding a) = Some c" and "refuses (decode_step c) raw"
  shows "anonymize_table_definition env w a =
           (Some 1, logging ERROR (str ''ValueError: '' @ os_strerror env UnicodeError (encoding a)) w)"
  by (simp add: atd_of_process [OF resolve_explicit [OF assms(1)]]
        process_refused [OF assms(2,3,4)] raise_def handler_message_cases)

lemma atd_written:
  assumes "resolve_encoding env w a = (Inr enc, w1)"
    and "fs w (input_file a) = Regular raw \<or> fs w (input_file a) = ReadOnly raw"
    and "codecs_lookup env enc = Some c" and "\<not> refuses (decode_step c) raw"
    and "re_compile env (column_name_pattern a) True = Inr p"
    and "fs w (output_file a) = Absent \<or> fs w (output_file a) = Regular old"
    and "encode c (to_linesep env (fst (sub_pass p (column_prefix a)
           (universal_newlines (spec_lossy (decode_step c) raw))))) = Some bytes"
    and "os_write env (output_file a) bytes = None"
  shows "anonymize_table_definition env w a =
           (None, w1\<lparr>fs := (fs w)(output_file a := Regular bytes),
                     log := log w1 @ [(INFO, str ''Anonymized table definition written to ''
                                            @ output_file a)]\<rparr>)"
proof -
  have f: "fs w1 = fs w" using resolve_encoding_fs [of env w a] assms(1) by simp
  have r: "fs w1 (input_file a) = Regular raw \<or> fs w1 (input_file a) = ReadOnly raw"
    using assms(2) f by simp
  have out: "fs w1 (output_file a) = Absent \<or> fs w1 (output_file a) = Regular old"
    using assms(6) f by simp
  show ?thesis
    by (simp add: atd_of_process [OF assms(1)]
          process_written [OF r assms(3,4,5) out assms(7,8)] f)
qed

lemma atd_unencodable:
  assumes "resolve_encoding env w a = (Inr enc, w1)"
    and "fs w (input_file a) = Regular raw \<or> fs w (input_file a) = ReadOnly raw"
    and "codecs_lookup env enc = Some c" and "\<not> refuses (decode_step c) raw"
    and "re_compile env (column_name_pattern a) True = Inr p"
    and "fs w (output_file a) = Absent \<or> fs w (output_file a) = Regular old"
    and "encode c (to_linesep env (fst (sub_pass p (column_prefix a)
           (universal_newlines (spec_lossy (decode_step c) raw))))) = None"
  shows "anonymize_table_definition env w a =
           (Some 1, logging ERROR (str ''ValueError: '' @ os_strerror env UnicodeError enc)
                      (w1\<lparr>fs := (fs w)(output_file a := Regular [])\<rparr>))"
proof -
  have f: "fs w1 = fs w" using resolve_encoding_fs [of env w a] assms(1) by simp
  have r: "fs w1 (input_file a) = Regular raw \<or> fs w1 (input_file a) = ReadOnly raw"
    using assms(2) f by simp
  have out: "fs w1 (output_file a) = Absent \<or> fs w1 (output_file a) = Regular old"
    using assms(6) f by simp
  have "process env w1 a enc =
          (Some (raise env UnicodeError enc), w1\<lparr>fs := (fs w)(output_file a := Regular [])\<rparr>)"
    using assms(3,7)
    by (simp add: process_def substituted_readable [OF r assms(3,4,5)]
          write_text_creates [OF out] create_and_write_def Let_def f)
  then show ?thesis
    by (simp add: atd_of_process [OF assms(1)] raise_def handler_message_cases)
qed

section \<open>Further properties of the pass\<close>

lemma lower_take: "lower (take n t) = take n (lower t)" and lower_drop: "lower (drop n t) = drop n (lower t)"
  and lower_append: "lower (s @ t) = lower s @ lower t"
  by (simp_all add: lower_def take_map drop_map)

lemma spec_numbered_lower:
  "lower t = lower t' \<Longrightarrow>
     lower (spec_numbered t i ms pre n) = lower (spec_numbered t' i ms pre n)"
  by (induction t i ms pre n rule: spec_numbered.induct)
     (simp_all add: lower_take lower_drop lower_append)


lemma sub_pass_eq:
  "sub_pass p pre t
     = (spec_numbered t 0 (finditer p t) pre 1, 1 + int (length (finditer p t)))"
  using subx_replace_column_name [of p pre t 0 False 1]
  by (simp add: sub_pass_def sub_pieces_def finditer_def case_prod_beta)


section \<open>Examples\<close>

text \<open>
  The example of the source's usage notes, with the default pattern and prefix: the two column
  names become \<open>column_1\<close> and \<open>column_2\<close> and the rest of the statement stays.
\<close>

lemma usage_example:
  "fst (sub_pass (rmatch True default_pattern) (str ''column_'')
          (str ''CREATE TABLE Customers (customer_id INT, customer_name VARCHAR(255));''))
     = str ''CREATE TABLE Customers (column_1 INT, column_2 VARCHAR(255));''"
  by code_simp

text \<open>
  A \<open>FileNotFoundError\<close> can also come from opening the output file, when a directory of its
  path is missing. It is caught by the same handler, so the line that is logged names the
  input file.
\<close>

lemma missing_output_directory_example:
  "fst (main example_env example_world nodir_argv) = 1
   \<and> log (snd (main example_env example_world nodir_argv))
     = [(ERROR, str ''Error: Input file '' @ [39] @ str ''in.sql'' @ [39] @ str '' not found.'')]"
  by code_simp

text \<open>
  The library raises a plain \<open>ValueError\<close> for a pattern whose inline flags exclude each other,
  as \<open>(?a)(?u)name\<close>; the handler for \<open>ValueError\<close> takes it, and the line that is logged does
  not speak of the pattern.
\<close>

lemma incompatible_flags_logged:
  assumes "parse_args env argv = Inr a" and "input_file a \<noteq> []" and "output_file a \<noteq> []"
    and "resolve_encoding env w a = (Inr enc, w')"
    and "read_text env w' (input_file a) enc = Inr table_definition"
    and "re_compile env (column_name_pattern a) True = Inl (Exc ValueError m)"
  shows "main env w argv = (1, logging ERROR (str ''ValueError: '' @ m) w')"
  using main_failed [OF assms(1,2,3) invalid_pattern_raises [OF assms(4,5,6)]]
  by (simp add: handler_message_cases)

section \<open>The claims\<close>

text \<open>
  Claim C1. For every text, compiled pattern and prefix, the substitution pass replaces the
  match number \<open>n\<close> of the left-to-right scan by the prefix followed by the decimal string of
  \<open>n\<close>, counting from 1 and up by one for each match whatever it matched, keeps the text
  between the matches, and leaves the counter one above the number of matches. The matches are
  those of the scan: each is a match of the pattern where it stands, and each starts at or
  after the end of the one before.
\<close>

theorem nth_match_numbered:
  "sub_pass p pre t
     = (spec_numbered t 0 (finditer p t) pre 1, 1 + int (length (finditer p t)))
   \<and> in_scan_order 0 (finditer p t)
   \<and> list_all (\<lambda>(b, e). b \<le> length t \<and> e - b \<in> set (p t b)) (finditer p t)"
  using subx_replace_column_name [of p pre t 0 False 1]
    finditer_from_order [of 0 p t False] finditer_from_matches [of t p 0 False]
  by (simp add: sub_pass_def sub_pieces_def finditer_def case_prod_beta)

theorem nth_match_numbered_witness:
  "sub_pass (rmatch True (lits (str ''name''))) (str ''col_'') (str ''a NAME b nAmE'')
     = (str ''a col_1 b col_2'', 3)
   \<and> finditer (rmatch True (lits (str ''name''))) (str ''a NAME b nAmE'') = [(2, 6), (9, 13)]"
proof -
  have f: "finditer (rmatch True (lits (str ''name''))) (str ''a NAME b nAmE'') = [(2, 6), (9, 13)]"
    by code_simp
  have v: "(spec_numbered (str ''a NAME b nAmE'') 0 [(2, 6), (9, 13)] (str ''col_'') 1,
            1 + int (length [(2::nat, 6::nat), (9, 13)])) = (str ''a col_1 b col_2'', 3)"
    by code_simp
  from nth_match_numbered [of "rmatch True (lits (str ''name''))" "str ''col_''" "str ''a NAME b nAmE''"]
  show ?thesis unfolding f v by simp
qed

text \<open>
  Claim C2. When the pattern compiles and matches nowhere in the text, the substitution pass
  returns the text as it is, the counter is still 1 after the pass, and no error is raised:
  the result is the text, not an exception.
\<close>

theorem no_match_unchanged:
  assumes "re_compile env pat True = Inr p" and "finditer p t = []"
  shows "sub_pass p pre t = (t, 1) \<and> anonymize_text env pat pre t = Inr t"
proof -
  have s: "sub_pass p pre t = (t, 1)"
    using assms(2) by (simp add: sub_pass_eq)
  then show ?thesis using assms(1) by (simp add: anonymize_text_def)
qed

theorem no_match_unchanged_witness:
  "sub_pass (rmatch True (lits (str ''name''))) (str ''column_'') (str ''SELECT 1;'')
     = (str ''SELECT 1;'', 1)
   \<and> anonymize_text example_env (str ''name'') (str ''column_'') (str ''SELECT 1;'')
     = Inr (str ''SELECT 1;'')"
proof -
  have c: "re_compile example_env (str ''name'') True = Inr (rmatch True (lits (str ''name'')))"
    by (simp add: example_env_def example_compile_def str_def is_word_def)
  have f: "finditer (rmatch True (lits (str ''name''))) (str ''SELECT 1;'') = []"
    by code_simp
  from no_match_unchanged [OF c f] show ?thesis .
qed




text \<open>
  Claim C4. A run that fails before the substituted text is there leaves every file as it
  was, the output file among them, and exits with status 1: so it is when the encoding cannot
  be settled, when reading or substituting fails, and in particular when the input file does
  not exist or cannot be read, when detection finds no encoding, and when the pattern is
  invalid.
\<close>

theorem output_untouched_before_substitution:
  "(resolve_encoding env w a = (Inl e, w') \<or>
    (resolve_encoding env w a = (Inr enc, w') \<and> substituted env w' a enc = Inl e) \<or>
    fs w (input_file a) = Absent \<or> fs w (input_file a) = NoDir \<or> fs w (input_file a) = Denied \<or>
    fs w (input_file a) = Invalid \<or>
    (lower (encoding a) = str ''auto'' \<and> open_read env w (input_file a) = Inr rawdata \<and>
       chardet_detect env rawdata = None) \<or>
    re_compile env (column_name_pattern a) True = Inl m)
   \<longrightarrow> fs (snd (anonymize_table_definition env w a)) = fs w \<and>
       fst (anonymize_table_definition env w a) = Some 1"
proof -
  let ?R = "fs (snd (anonymize_table_definition env w a)) = fs w \<and>
            fst (anonymize_table_definition env w a) = Some 1"
  have 1: ?R if "resolve_encoding env w a = (Inl e, w')"
    using try_body_early [OF that] by (simp add: atd_failed)
  have 2: ?R if "resolve_encoding env w a = (Inr enc, w')" "substituted env w' a enc = Inl e"
    using try_body_not_substituted [OF that] by (simp add: atd_failed)
  have 3: ?R if "fs w (input_file a) = Absent \<or> fs w (input_file a) = NoDir
                 \<or> fs w (input_file a) = Denied \<or> fs w (input_file a) = Invalid"
  proof (rule untouched_if)
    fix enc w' assume r: "resolve_encoding env w a = (Inr enc, w')"
    from that obtain x where "open_read env w (input_file a) = Inl x"
      by (auto simp: open_read_def)
    then have "open_read env w' (input_file a) = Inl x" by (simp add: resolve_encoding_open [OF r])
    then show "\<exists>e. substituted env w' a enc = Inl e" by (auto dest: unreadable_not_substituted)
  qed
  have 4: ?R if "lower (encoding a) = str ''auto''" "open_read env w (input_file a) = Inr rawdata"
       "chardet_detect env rawdata = None"
  proof (rule untouched_if)
    fix enc w' assume "resolve_encoding env w a = (Inr enc, w')"
    with that show "\<exists>e. substituted env w' a enc = Inl e" by (simp add: resolve_encoding_def)
  qed
  have 5: ?R if "re_compile env (column_name_pattern a) True = Inl m"
    by (rule untouched_if) (rule invalid_pattern_not_substituted [OF that])
  show ?thesis using 1 2 3 4 5 by blast
qed

theorem output_untouched_before_substitution_witness:
  "fs (snd (anonymize_table_definition example_env example_world
             (example_args\<lparr>column_name_pattern := str ''(''\<rparr>))) = fs example_world
   \<and> fst (anonymize_table_definition example_env example_world
             (example_args\<lparr>column_name_pattern := str ''(''\<rparr>)) = Some 1
   \<and> fs example_world (str ''out.sql'') = Absent"
proof -
  let ?a = "example_args\<lparr>column_name_pattern := str ''(''\<rparr>"
  let ?m = "Exc ReError (str ''missing ), unterminated subpattern at position 0'')"
  have c: "re_compile example_env (column_name_pattern ?a) True = Inl ?m"
    by (simp add: example_env_def example_compile_def str_def is_word_def
          default_pattern_source_def)
  have o: "fs example_world (str ''out.sql'') = Absent" by code_simp
  from output_untouched_before_substitution [of example_env example_world ?a _ _ _ _ ?m] c o
  show ?thesis by simp
qed

text \<open>
  Claim C5. Let the encoding argument be \<open>auto\<close> in any letter case and the input file be
  readable. The detector is given the bytes of the file. When it finds nothing, the run logs
  that, fails with the \<open>ValueError\<close> of the program and exits with status 1. When it finds an
  encoding, the name is logged, and it is the name under which the codec is looked up for
  reading and for writing: if the registry does not know it, the run fails with its
  \<open>LookupError\<close>; if its decoder refuses the bytes, with its \<open>UnicodeError\<close>; if its encoder
  cannot encode the substituted text, with that error after the output file was emptied;
  and otherwise the output file holds the substituted text, decoded from the bytes of the
  input by that codec and encoded by it again.
\<close>

theorem auto_detection:
  assumes "lower (encoding a) = str ''auto''"
    and "fs w (input_file a) = Regular raw \<or> fs w (input_file a) = ReadOnly raw"
  shows
   "(chardet_detect env raw = None \<longrightarrow>
       anonymize_table_definition env w a =
         (Some 1,
          logging ERROR (str ''ValueError: Unable to automatically detect file encoding.'')
            (logging INFO (str ''Detected encoding: None'') w)))
    \<and> (chardet_detect env raw = Some d \<longrightarrow>
         resolve_encoding env w a = (Inr d, logging INFO (str ''Detected encoding: '' @ d) w)
       \<and> (codecs_lookup env d = None \<longrightarrow>
            anonymize_table_definition env w a =
              (Some 1,
               logging ERROR (str ''An unexpected error occurred: '' @ os_strerror env LookupError d)
                 (logging INFO (str ''Detected encoding: '' @ d) w)))
       \<and> (codecs_lookup env d = Some c \<and> refuses (decode_step c) raw \<longrightarrow>
            anonymize_table_definition env w a =
              (Some 1,
               logging ERROR (str ''ValueError: '' @ os_strerror env UnicodeError d)
                 (logging INFO (str ''Detected encoding: '' @ d) w)))
       \<and> (codecs_lookup env d = Some c \<and> \<not> refuses (decode_step c) raw
            \<and> re_compile env (column_name_pattern a) True = Inr p
            \<and> (fs w (output_file a) = Absent \<or> fs w (output_file a) = Regular old)
            \<and> encode c (to_linesep env (fst (sub_pass p (column_prefix a)
                  (universal_newlines (spec_lossy (decode_step c) raw))))) = Some bytes
            \<and> os_write env (output_file a) bytes = None \<longrightarrow>
            anonymize_table_definition env w a =
              (None,
               w\<lparr>fs := (fs w)(output_file a := Regular bytes),
                 log := log w @ [(INFO, str ''Detected encoding: '' @ d),
                                 (INFO, str ''Anonymized table definition written to ''
                                        @ output_file a)]\<rparr>))
       \<and> (codecs_lookup env d = Some c \<and> \<not> refuses (decode_step c) raw
            \<and> re_compile env (column_name_pattern a) True = Inr p
            \<and> (fs w (output_file a) = Absent \<or> fs w (output_file a) = Regular old)
            \<and> encode c (to_linesep env (fst (sub_pass p (column_prefix a)
                  (universal_newlines (spec_lossy (decode_step c) raw))))) = None \<longrightarrow>
            anonymize_table_definition env w a =
              (Some 1,
               w\<lparr>fs := (fs w)(output_file a := Regular []),
                 log := log w @ [(INFO, str ''Detected encoding: '' @ d),
                                 (ERROR, str ''ValueError: '' @ os_strerror env UnicodeError d)]\<rparr>)))"
proof (intro conjI impI)
  assume n: "chardet_detect env raw = None"
  from atd_failed [OF detection_failure_raises [OF assms(1) open_read_readable [OF assms(2)] n]]
  show "anonymize_table_definition env w a =
         (Some 1,
          logging ERROR (str ''ValueError: Unable to automatically detect file encoding.'')
            (logging INFO (str ''Detected encoding: None'') w))"
    by (simp add: handler_message_cases str_def)
next
  assume d: "chardet_detect env raw = Some d"
  show r: "resolve_encoding env w a = (Inr d, logging INFO (str ''Detected encoding: '' @ d) w)"
    using resolve_detected [OF assms, of env] d by simp
  {
    assume "codecs_lookup env d = None"
    from atd_unknown_encoding [OF r assms(2) this]
    show "anonymize_table_definition env w a =
              (Some 1,
               logging ERROR (str ''An unexpected error occurred: '' @ os_strerror env LookupError d)
                 (logging INFO (str ''Detected encoding: '' @ d) w))" .
  next
    assume "codecs_lookup env d = Some c \<and> refuses (decode_step c) raw"
    then have c: "codecs_lookup env d = Some c" and f: "refuses (decode_step c) raw" by simp_all
    from atd_codec_refused [OF r assms(2) c f]
    show "anonymize_table_definition env w a =
              (Some 1,
               logging ERROR (str ''ValueError: '' @ os_strerror env UnicodeError d)
                 (logging INFO (str ''Detected encoding: '' @ d) w))" .
  next
    assume h: "codecs_lookup env d = Some c \<and> \<not> refuses (decode_step c) raw
            \<and> re_compile env (column_name_pattern a) True = Inr p
            \<and> (fs w (output_file a) = Absent \<or> fs w (output_file a) = Regular old)
            \<and> encode c (to_linesep env (fst (sub_pass p (column_prefix a)
                  (universal_newlines (spec_lossy (decode_step c) raw))))) = Some bytes
            \<and> os_write env (output_file a) bytes = None"
    then have h1: "codecs_lookup env d = Some c" and h2: "\<not> refuses (decode_step c) raw"
      and h3: "re_compile env (column_name_pattern a) True = Inr p"
      and h4: "fs w (output_file a) = Absent \<or> fs w (output_file a) = Regular old"
      and h5: "encode c (to_linesep env (fst (sub_pass p (column_prefix a)
                  (universal_newlines (spec_lossy (decode_step c) raw))))) = Some bytes"
      and h6: "os_write env (output_file a) bytes = None"
      by blast+
    from atd_written [OF r assms(2) h1 h2 h3 h4 h5 h6]
    show "anonymize_table_definition env w a =
              (None,
               w\<lparr>fs := (fs w)(output_file a := Regular bytes),
                 log := log w @ [(INFO, str ''Detected encoding: '' @ d),
                                 (INFO, str ''Anonymized table definition written to ''
                                        @ output_file a)]\<rparr>)"
      by (simp add: logging_def)
  next
    assume h: "codecs_lookup env d = Some c \<and> \<not> refuses (decode_step c) raw
            \<and> re_compile env (column_name_pattern a) True = Inr p
            \<and> (fs w (output_file a) = Absent \<or> fs w (output_file a) = Regular old)
            \<and> encode c (to_linesep env (fst (sub_pass p (column_prefix a)
                  (universal_newlines (spec_lossy (decode_step c) raw))))) = None"
    then have h1: "codecs_lookup env d = Some c" and h2: "\<not> refuses (decode_step c) raw"
      and h3: "re_compile env (column_name_pattern a) True = Inr p"
      and h4: "fs w (output_file a) = Absent \<or> fs w (output_file a) = Regular old"
      and h5: "encode c (to_linesep env (fst (sub_pass p (column_prefix a)
                  (universal_newlines (spec_lossy (decode_step c) raw))))) = None"
      by blast+
    from atd_unencodable [OF r assms(2) h1 h2 h3 h4 h5]
    show "anonymize_table_definition env w a =
              (Some 1,
               w\<lparr>fs := (fs w)(output_file a := Regular []),
                 log := log w @ [(INFO, str ''Detected encoding: '' @ d),
                                 (ERROR, str ''ValueError: '' @ os_strerror env UnicodeError d)]\<rparr>)"
      by (simp add: logging_def)
  }
qed

theorem auto_detection_witness:
  "anonymize_table_definition example_env example_world auto_args =
     (None,
      example_world
        \<lparr>fs := (fs example_world)
                (str ''out.sql'' := Regular (str ''CREATE TABLE t (user_column_1 TEXT, x INT);'')),
         log := [(INFO, str ''Detected encoding: ascii''),
                 (INFO, str ''Anonymized table definition written to out.sql'')]\<rparr>)
   \<and> anonymize_table_definition example_env example_world empty_auto_args =
       (Some 1,
        example_world
          \<lparr>log := [(INFO, str ''Detected encoding: None''),
                   (ERROR, str ''ValueError: Unable to automatically detect file encoding.'')]\<rparr>)"
proof -
  have l: "lower (encoding auto_args) = str ''auto''" by code_simp
  have f: "fs example_world (input_file auto_args)
             = Regular (str ''CREATE TABLE t (user_name TEXT, x INT);'')
           \<or> fs example_world (input_file auto_args)
             = ReadOnly (str ''CREATE TABLE t (user_name TEXT, x INT);'')"
    by code_simp
  have d: "chardet_detect example_env (str ''CREATE TABLE t (user_name TEXT, x INT);'')
             = Some (str ''ascii'')"
    by code_simp
  have c: "codecs_lookup example_env (str ''ascii'') = Some ascii_codec"
    by (simp add: example_env_def lower_def str_def lower_cp_def)
  have nr: "\<not> refuses (decode_step ascii_codec) (str ''CREATE TABLE t (user_name TEXT, x INT);'')"
    by code_simp
  have p: "re_compile example_env (column_name_pattern auto_args) True
             = Inr (rmatch True (lits (str ''name'')))"
    by (simp add: example_env_def example_compile_def is_word_def str_def auto_args_def
          example_args_def)
  have o: "fs example_world (output_file auto_args) = Absent
           \<or> fs example_world (output_file auto_args) = Regular []"
    by code_simp
  have e: "encode ascii_codec
             (to_linesep example_env
               (fst (sub_pass (rmatch True (lits (str ''name''))) (column_prefix auto_args)
                      (universal_newlines
                        (spec_lossy (decode_step ascii_codec)
                          (str ''CREATE TABLE t (user_name TEXT, x INT);''))))))
           = Some (str ''CREATE TABLE t (user_column_1 TEXT, x INT);'')"
    by code_simp
  have dv: "os_write example_env (output_file auto_args)
              (str ''CREATE TABLE t (user_column_1 TEXT, x INT);'') = None"
    by (simp add: example_env_def)
  have out: "output_file auto_args = str ''out.sql''"
    by (simp add: auto_args_def example_args_def)
  have lg: "log example_world = []" by (simp add: example_world_def)
  have first: "anonymize_table_definition example_env example_world auto_args =
     (None,
      example_world
        \<lparr>fs := (fs example_world)
                (str ''out.sql'' := Regular (str ''CREATE TABLE t (user_column_1 TEXT, x INT);'')),
         log := [(INFO, str ''Detected encoding: ascii''),
                 (INFO, str ''Anonymized table definition written to out.sql'')]\<rparr>)"
    using auto_detection
            [OF l f, where env = example_env and d = "str ''ascii''" and c = ascii_codec
               and p = "rmatch True (lits (str ''name''))" and old = "[]"
               and bytes = "str ''CREATE TABLE t (user_column_1 TEXT, x INT);''",
             THEN conjunct2, THEN mp, OF d, THEN conjunct2, THEN conjunct2, THEN conjunct2,
             THEN conjunct1, THEN mp,
             OF conjI [OF c conjI [OF nr conjI [OF p conjI [OF o conjI [OF e dv]]]]]]
    by (simp add: out lg str_def)
  have l2: "lower (encoding empty_auto_args) = str ''auto''" by code_simp
  have f2: "fs example_world (input_file empty_auto_args) = Regular []
            \<or> fs example_world (input_file empty_auto_args) = ReadOnly []"
    by code_simp
  have d2: "chardet_detect example_env [] = None" by code_simp
  have second: "anonymize_table_definition example_env example_world empty_auto_args =
       (Some 1,
        example_world
          \<lparr>log := [(INFO, str ''Detected encoding: None''),
                   (ERROR, str ''ValueError: Unable to automatically detect file encoding.'')]\<rparr>)"
    using auto_detection [OF l2 f2, where env = example_env, THEN conjunct1, THEN mp, OF d2]
    by (simp add: logging_def lg)
  from first second show ?thesis by (intro conjI)
qed




text \<open>
  Claim C7 as it stands does not hold. Reading can fail on decoding although the handler is \<open>replace\<close>: a codec can raise without
  asking the handler. With the encoding \<open>undefined\<close> the read raises \<open>UnicodeError\<close>, and the
  run logs it as a \<open>ValueError\<close> and exits with status 1.
\<close>

theorem undefined_codec_read_fails:
  "read_text example_env example_world (str ''in.sql'') (str ''undefined'')
     = Inl (Exc UnicodeError (str ''undefined encoding''))
   \<and> fst (main example_env example_world undefined_argv) = 1
   \<and> log (snd (main example_env example_world undefined_argv))
       = [(ERROR, str ''ValueError: undefined encoding'')]"
  by code_simp

text \<open>
  Claim C7, amended. Under the \<open>replace\<close> handler decoding fails exactly when the codec itself
  refuses to go on; otherwise it runs to the end of the input and puts one U+FFFD for each
  undecodable sequence the codec reports, and where strict decoding succeeds it gives the
  same text. A codec that never refuses never fails. Reading a file that can be opened, in an
  encoding the registry knows, gives that text with the line ends normalised, or raises
  \<open>UnicodeError\<close> when the codec refuses; it raises \<open>UnicodeError\<close> in no other case; and a run
  whose read is refused exits with status 1 and the line of the \<open>ValueError\<close> handler.
\<close>

theorem decode_errors_replaced_unless_refused:
  "decode step Replace bs = (if refuses step bs then None else Some (spec_lossy step bs))
   \<and> ((\<forall>x. step Replace x \<noteq> Refused) \<longrightarrow> decode step Replace bs = Some (spec_lossy step bs))
   \<and> ((\<forall>x. step Replace x = step Strict x) \<and> decode step Strict bs = Some s \<longrightarrow>
        decode step Replace bs = Some s)
   \<and> ((fs w path = Regular raw \<or> fs w path = ReadOnly raw) \<and> codecs_lookup env enc = Some c \<longrightarrow>
        read_text env w path enc =
          (if refuses (decode_step c) raw then Inl (raise env UnicodeError enc)
           else Inr (universal_newlines (spec_lossy (decode_step c) raw))))
   \<and> (read_text env w path enc = Inl (Exc UnicodeError msg) \<longrightarrow>
        (\<exists>raw c. (fs w path = Regular raw \<or> fs w path = ReadOnly raw)
           \<and> codecs_lookup env enc = Some c \<and> refuses (decode_step c) raw))
   \<and> (lower (encoding a) \<noteq> str ''auto''
        \<and> (fs w (input_file a) = Regular raw \<or> fs w (input_file a) = ReadOnly raw)
        \<and> codecs_lookup env (encoding a) = Some c \<and> refuses (decode_step c) raw \<longrightarrow>
        anonymize_table_definition env w a =
          (Some 1,
           logging ERROR (str ''ValueError: '' @ os_strerror env UnicodeError (encoding a)) w))"
proof (intro conjI impI)
  show "decode step Replace bs = (if refuses step bs then None else Some (spec_lossy step bs))"
    by (rule decode_replace)
next
  assume "\<forall>x. step Replace x \<noteq> Refused"
  then have "\<not> refuses step bs" by (intro never_refuses) simp
  then show "decode step Replace bs = Some (spec_lossy step bs)" by (simp add: decode_replace)
next
  assume "(\<forall>x. step Replace x = step Strict x) \<and> decode step Strict bs = Some s"
  then show "decode step Replace bs = Some s" using decode_strict_replace [of step bs s] by simp
next
  assume "(fs w path = Regular raw \<or> fs w path = ReadOnly raw) \<and> codecs_lookup env enc = Some c"
  then show "read_text env w path enc =
          (if refuses (decode_step c) raw then Inl (raise env UnicodeError enc)
           else Inr (universal_newlines (spec_lossy (decode_step c) raw)))"
    using read_text_readable [of w path raw env enc c] by simp
next
  assume "read_text env w path enc = Inl (Exc UnicodeError msg)"
  then show "\<exists>raw c. (fs w path = Regular raw \<or> fs w path = ReadOnly raw)
           \<and> codecs_lookup env enc = Some c \<and> refuses (decode_step c) raw"
    by (rule read_text_unicode_error)
next
  assume "lower (encoding a) \<noteq> str ''auto''
        \<and> (fs w (input_file a) = Regular raw \<or> fs w (input_file a) = ReadOnly raw)
        \<and> codecs_lookup env (encoding a) = Some c \<and> refuses (decode_step c) raw"
  then show "anonymize_table_definition env w a =
          (Some 1,
           logging ERROR (str ''ValueError: '' @ os_strerror env UnicodeError (encoding a)) w)"
    using atd_refused [of a w raw env c] by simp
qed

theorem decode_errors_replaced_unless_refused_witness:
  "decode ascii_step Replace [97, 233, 98] = Some [97, 65533, 98]
   \<and> read_text example_env latin_world (str ''in.sql'') (str ''ascii'') = Inr [97, 65533, 98]
   \<and> read_text example_env latin_world (str ''in.sql'') (str ''undefined'')
       = Inl (Exc UnicodeError (str ''undefined encoding''))"
proof -
  have total: "\<forall>x. ascii_step Replace x \<noteq> Refused"
    by (simp add: ascii_step_def split: list.splits)
  have sl: "spec_lossy ascii_step [97, 233, 98] = [97, 65533, 98]"
    by (simp add: ascii_step_def)
  have first: "decode ascii_step Replace [97, 233, 98] = Some [97, 65533, 98]"
    using decode_errors_replaced_unless_refused
            [where step = ascii_step and bs = "[97, 233, 98]",
             THEN conjunct2, THEN conjunct1, THEN mp, OF total]
    by (simp only: sl)
  have f: "fs latin_world (str ''in.sql'') = Regular [97, 233, 98]
           \<or> fs latin_world (str ''in.sql'') = ReadOnly [97, 233, 98]"
    by (simp add: latin_world_def)
  have c1: "codecs_lookup example_env (str ''ascii'') = Some ascii_codec"
    by (simp add: example_env_def lower_def str_def lower_cp_def)
  have nr: "\<not> refuses (decode_step ascii_codec) [97, 233, 98]"
    by (simp add: ascii_codec_def ascii_step_def)
  have sl': "universal_newlines (spec_lossy (decode_step ascii_codec) [97, 233, 98]) = [97, 65533, 98]"
    by (simp add: ascii_codec_def ascii_step_def)
  have second: "read_text example_env latin_world (str ''in.sql'') (str ''ascii'') = Inr [97, 65533, 98]"
    using decode_errors_replaced_unless_refused
            [where w = latin_world and path = "str ''in.sql''" and raw = "[97, 233, 98]"
               and env = example_env and enc = "str ''ascii''" and c = ascii_codec,
             THEN conjunct2, THEN conjunct2, THEN conjunct2, THEN conjunct1, THEN mp,
             OF conjI [OF f c1]]
    by (simp only: nr sl' if_False)
  have c2: "codecs_lookup example_env (str ''undefined'') = Some undefined_codec"
    by (simp add: example_env_def lower_def str_def lower_cp_def)
  have r: "refuses (decode_step undefined_codec) [97, 233, 98]"
    by (simp add: undefined_codec_def)
  have m: "raise example_env UnicodeError (str ''undefined'')
             = Exc UnicodeError (str ''undefined encoding'')"
    by (simp add: raise_def example_env_def example_strerror_def str_def)
  have third: "read_text example_env latin_world (str ''in.sql'') (str ''undefined'')
       = Inl (Exc UnicodeError (str ''undefined encoding''))"
    using decode_errors_replaced_unless_refused
            [where w = latin_world and path = "str ''in.sql''" and raw = "[97, 233, 98]"
               and env = example_env and enc = "str ''undefined''" and c = undefined_codec,
             THEN conjunct2, THEN conjunct2, THEN conjunct2, THEN conjunct1, THEN mp,
             OF conjI [OF f c2]]
    by (simp only: r m if_True)
  from first second third show ?thesis by (intro conjI)
qed

text \<open>
  Claim C8. The substitution pass is not idempotent: there are a pattern, a prefix and a text
  for which the pass applied to its own output gives another text. With the pattern
  \<open>column_\<close> and the prefix \<open>column_\<close>, the text \<open>column_\<close> becomes \<open>column_1\<close>, and that becomes
  \<open>column_11\<close>.
\<close>

theorem not_idempotent:
  "\<exists>r pre t. fst (sub_pass (rmatch True r) pre (fst (sub_pass (rmatch True r) pre t)))
               \<noteq> fst (sub_pass (rmatch True r) pre t)"
proof -
  have 1: "fst (sub_pass (rmatch True (lits (str ''column_''))) (str ''column_'') (str ''column_''))
             = str ''column_1''"
    by code_simp
  have 2: "fst (sub_pass (rmatch True (lits (str ''column_''))) (str ''column_'') (str ''column_1''))
             = str ''column_11''"
    by code_simp
  have 3: "str ''column_11'' \<noteq> str ''column_1''" by code_simp
  show ?thesis
    by (rule exI [of _ "lits (str ''column_'')"], rule exI [of _ "str ''column_''"],
        rule exI [of _ "str ''column_''"]) (simp only: 1 2 3 not_False_eq_True)
qed

text \<open>
  Claim C9. The encoding argument means detection exactly when it is one of the sixteen
  spellings of \<open>auto\<close> in upper and lower case, and then the run is the run with \<open>auto\<close>: the
  detector is given the bytes of the input file. Any other value is the name of the encoding
  itself: nothing is detected or logged for it and the detector has no part in the run; the
  value is the name under which the codec is looked up, so that the run fails with the
  \<open>LookupError\<close> of the registry when the name is unknown, and otherwise the output file holds
  the substituted text, decoded from the bytes of the input by that codec and encoded by it
  again.
\<close>

theorem auto_sentinel_ignores_case:
  "(lower enc = str ''auto'' \<longleftrightarrow>
      (\<exists>c1 c2 c3 c4. enc = [c1, c2, c3, c4] \<and> (c1 = 97 \<or> c1 = 65) \<and> (c2 = 117 \<or> c2 = 85)
         \<and> (c3 = 116 \<or> c3 = 84) \<and> (c4 = 111 \<or> c4 = 79)))
   \<and> (lower enc = str ''auto'' \<longrightarrow>
        anonymize_table_definition env w (a\<lparr>encoding := enc\<rparr>)
          = anonymize_table_definition env w (a\<lparr>encoding := str ''auto''\<rparr>)
      \<and> (fs w (input_file a) = Regular raw \<or> fs w (input_file a) = ReadOnly raw \<longrightarrow>
           resolve_encoding env w (a\<lparr>encoding := enc\<rparr>) =
             (case chardet_detect env raw of
                None \<Rightarrow>
                  (Inl (Exc ValueError (str ''Unable to automatically detect file encoding.'')),
                   logging INFO (str ''Detected encoding: None'') w)
              | Some detected \<Rightarrow>
                  (Inr detected, logging INFO (str ''Detected encoding: '' @ detected) w))))
   \<and> (lower enc \<noteq> str ''auto'' \<longrightarrow>
        resolve_encoding env w (a\<lparr>encoding := enc\<rparr>) = (Inr enc, w)
      \<and> anonymize_table_definition (env\<lparr>chardet_detect := f\<rparr>) w (a\<lparr>encoding := enc\<rparr>)
          = anonymize_table_definition env w (a\<lparr>encoding := enc\<rparr>)
      \<and> ((fs w (input_file a) = Regular raw \<or> fs w (input_file a) = ReadOnly raw)
           \<and> codecs_lookup env enc = None \<longrightarrow>
           anonymize_table_definition env w (a\<lparr>encoding := enc\<rparr>) =
             (Some 1,
              logging ERROR (str ''An unexpected error occurred: ''
                             @ os_strerror env LookupError enc) w))
      \<and> ((fs w (input_file a) = Regular raw \<or> fs w (input_file a) = ReadOnly raw)
           \<and> codecs_lookup env enc = Some c \<and> \<not> refuses (decode_step c) raw
           \<and> re_compile env (column_name_pattern a) True = Inr p
           \<and> (fs w (output_file a) = Absent \<or> fs w (output_file a) = Regular old)
           \<and> encode c (to_linesep env (fst (sub_pass p (column_prefix a)
                 (universal_newlines (spec_lossy (decode_step c) raw))))) = Some bytes
           \<and> os_write env (output_file a) bytes = None \<longrightarrow>
           anonymize_table_definition env w (a\<lparr>encoding := enc\<rparr>) =
             (None,
              w\<lparr>fs := (fs w)(output_file a := Regular bytes),
                log := log w @ [(INFO, str ''Anonymized table definition written to ''
                                       @ output_file a)]\<rparr>)))"
proof (intro conjI impI)
  show "lower enc = str ''auto'' \<longleftrightarrow>
      (\<exists>c1 c2 c3 c4. enc = [c1, c2, c3, c4] \<and> (c1 = 97 \<or> c1 = 65) \<and> (c2 = 117 \<or> c2 = 85)
         \<and> (c3 = 116 \<or> c3 = 84) \<and> (c4 = 111 \<or> c4 = 79))"
    by (rule lower_auto_iff)
next
  assume l: "lower enc = str ''auto''"
  show "anonymize_table_definition env w (a\<lparr>encoding := enc\<rparr>)
          = anonymize_table_definition env w (a\<lparr>encoding := str ''auto''\<rparr>)"
    by (rule atd_encoding_cong [OF resolve_encoding_auto_cong [OF l]])
  assume r: "fs w (input_file a) = Regular raw \<or> fs w (input_file a) = ReadOnly raw"
  show "resolve_encoding env w (a\<lparr>encoding := enc\<rparr>) =
             (case chardet_detect env raw of
                None \<Rightarrow>
                  (Inl (Exc ValueError (str ''Unable to automatically detect file encoding.'')),
                   logging INFO (str ''Detected encoding: None'') w)
              | Some detected \<Rightarrow>
                  (Inr detected, logging INFO (str ''Detected encoding: '' @ detected) w))"
    using resolve_detected [of "a\<lparr>encoding := enc\<rparr>" w raw env] l r by simp
next
  assume n: "lower enc \<noteq> str ''auto''"
  show r: "resolve_encoding env w (a\<lparr>encoding := enc\<rparr>) = (Inr enc, w)"
    using resolve_explicit [of "a\<lparr>encoding := enc\<rparr>" env w] n by simp
  show "anonymize_table_definition (env\<lparr>chardet_detect := f\<rparr>) w (a\<lparr>encoding := enc\<rparr>)
          = anonymize_table_definition env w (a\<lparr>encoding := enc\<rparr>)"
    using atd_detector_irrelevant [where a = "a\<lparr>encoding := enc\<rparr>" and env = env and f = f and w = w] n
    by simp
  {
    assume "(fs w (input_file a) = Regular raw \<or> fs w (input_file a) = ReadOnly raw)
           \<and> codecs_lookup env enc = None"
    then have i: "fs w (input_file (a\<lparr>encoding := enc\<rparr>)) = Regular raw
                  \<or> fs w (input_file (a\<lparr>encoding := enc\<rparr>)) = ReadOnly raw"
      and c: "codecs_lookup env enc = None" by simp_all
    from atd_unknown_encoding [OF r i c]
    show "anonymize_table_definition env w (a\<lparr>encoding := enc\<rparr>) =
             (Some 1,
              logging ERROR (str ''An unexpected error occurred: ''
                             @ os_strerror env LookupError enc) w)" .
  next
    assume h: "(fs w (input_file a) = Regular raw \<or> fs w (input_file a) = ReadOnly raw)
           \<and> codecs_lookup env enc = Some c \<and> \<not> refuses (decode_step c) raw
           \<and> re_compile env (column_name_pattern a) True = Inr p
           \<and> (fs w (output_file a) = Absent \<or> fs w (output_file a) = Regular old)
           \<and> encode c (to_linesep env (fst (sub_pass p (column_prefix a)
                 (universal_newlines (spec_lossy (decode_step c) raw))))) = Some bytes
           \<and> os_write env (output_file a) bytes = None"
    then have h0: "fs w (input_file (a\<lparr>encoding := enc\<rparr>)) = Regular raw
                  \<or> fs w (input_file (a\<lparr>encoding := enc\<rparr>)) = ReadOnly raw"
      and h1: "codecs_lookup env enc = Some c" and h2: "\<not> refuses (decode_step c) raw"
      and h3: "re_compile env (column_name_pattern (a\<lparr>encoding := enc\<rparr>)) True = Inr p"
      and h4: "fs w (output_file (a\<lparr>encoding := enc\<rparr>)) = Absent
               \<or> fs w (output_file (a\<lparr>encoding := enc\<rparr>)) = Regular old"
      and h5: "encode c (to_linesep env (fst (sub_pass p (column_prefix (a\<lparr>encoding := enc\<rparr>))
                  (universal_newlines (spec_lossy (decode_step c) raw))))) = Some bytes"
      and h6: "os_write env (output_file (a\<lparr>encoding := enc\<rparr>)) bytes = None"
      by simp_all
    from atd_written [OF r h0 h1 h2 h3 h4 h5 h6]
    show "anonymize_table_definition env w (a\<lparr>encoding := enc\<rparr>) =
             (None,
              w\<lparr>fs := (fs w)(output_file a := Regular bytes),
                log := log w @ [(INFO, str ''Anonymized table definition written to ''
                                       @ output_file a)]\<rparr>)"
      by simp
  }
qed

theorem auto_sentinel_ignores_case_witness:
  "anonymize_table_definition example_env example_world (example_args\<lparr>encoding := str ''AuTo''\<rparr>)
     = anonymize_table_definition example_env example_world (example_args\<lparr>encoding := str ''auto''\<rparr>)
   \<and> anonymize_table_definition example_env example_world (example_args\<lparr>encoding := str ''ASCII''\<rparr>)
     = (None,
        example_world
          \<lparr>fs := (fs example_world)
                  (str ''out.sql'' := Regular (str ''CREATE TABLE t (user_column_1 TEXT, x INT);'')),
           log := [(INFO, str ''Anonymized table definition written to out.sql'')]\<rparr>)
   \<and> anonymize_table_definition example_env example_world (example_args\<lparr>encoding := str ''autos''\<rparr>)
     = (Some 1,
        example_world\<lparr>log := [(ERROR, str ''An unexpected error occurred: unknown encoding: autos'')]\<rparr>)"
proof -
  have l: "lower (str ''AuTo'') = str ''auto''" by code_simp
  have first: "anonymize_table_definition example_env example_world (example_args\<lparr>encoding := str ''AuTo''\<rparr>)
     = anonymize_table_definition example_env example_world (example_args\<lparr>encoding := str ''auto''\<rparr>)"
    using auto_sentinel_ignores_case
            [where enc = "str ''AuTo''" and env = example_env and w = example_world
               and a = example_args,
             THEN conjunct2, THEN conjunct1, THEN mp, OF l, THEN conjunct1] .
  have n: "lower (str ''ASCII'') \<noteq> str ''auto''" by code_simp
  have f: "fs example_world (input_file example_args)
             = Regular (str ''CREATE TABLE t (user_name TEXT, x INT);'')
           \<or> fs example_world (input_file example_args)
             = ReadOnly (str ''CREATE TABLE t (user_name TEXT, x INT);'')"
    by code_simp
  have c: "codecs_lookup example_env (str ''ASCII'') = Some ascii_codec"
    by (simp add: example_env_def lower_def str_def lower_cp_def)
  have nr: "\<not> refuses (decode_step ascii_codec) (str ''CREATE TABLE t (user_name TEXT, x INT);'')"
    by code_simp
  have p: "re_compile example_env (column_name_pattern example_args) True
             = Inr (rmatch True (lits (str ''name'')))"
    by (simp add: example_env_def example_compile_def is_word_def str_def example_args_def)
  have o: "fs example_world (output_file example_args) = Absent
           \<or> fs example_world (output_file example_args) = Regular []"
    by code_simp
  have e: "encode ascii_codec
             (to_linesep example_env
               (fst (sub_pass (rmatch True (lits (str ''name''))) (column_prefix example_args)
                      (universal_newlines
                        (spec_lossy (decode_step ascii_codec)
                          (str ''CREATE TABLE t (user_name TEXT, x INT);''))))))
           = Some (str ''CREATE TABLE t (user_column_1 TEXT, x INT);'')"
    by code_simp
  have dv: "os_write example_env (output_file example_args)
              (str ''CREATE TABLE t (user_column_1 TEXT, x INT);'') = None"
    by (simp add: example_env_def)
  have out: "output_file example_args = str ''out.sql''" by (simp add: example_args_def)
  have lg: "log example_world = []" by (simp add: example_world_def)
  have second: "anonymize_table_definition example_env example_world (example_args\<lparr>encoding := str ''ASCII''\<rparr>)
     = (None,
        example_world
          \<lparr>fs := (fs example_world)
                  (str ''out.sql'' := Regular (str ''CREATE TABLE t (user_column_1 TEXT, x INT);'')),
           log := [(INFO, str ''Anonymized table definition written to out.sql'')]\<rparr>)"
    using auto_sentinel_ignores_case
            [where enc = "str ''ASCII''" and env = example_env and w = example_world
               and a = example_args and c = ascii_codec
               and raw = "str ''CREATE TABLE t (user_name TEXT, x INT);''"
               and p = "rmatch True (lits (str ''name''))" and old = "[]"
               and bytes = "str ''CREATE TABLE t (user_column_1 TEXT, x INT);''",
             THEN conjunct2, THEN conjunct2, THEN mp, OF n, THEN conjunct2, THEN conjunct2,
             THEN conjunct2, THEN mp,
             OF conjI [OF f conjI [OF c conjI [OF nr conjI [OF p conjI [OF o conjI [OF e dv]]]]]]]
    by (simp add: out lg str_def)
  have n3: "lower (str ''autos'') \<noteq> str ''auto''" by code_simp
  have c3: "codecs_lookup example_env (str ''autos'') = None"
    by (simp add: example_env_def lower_def str_def lower_cp_def)
  have m3: "os_strerror example_env LookupError (str ''autos'') = str ''unknown encoding: autos''"
    by (simp add: example_env_def example_strerror_def str_def)
  have third: "anonymize_table_definition example_env example_world (example_args\<lparr>encoding := str ''autos''\<rparr>)
     = (Some 1,
        example_world\<lparr>log := [(ERROR, str ''An unexpected error occurred: unknown encoding: autos'')]\<rparr>)"
    using auto_sentinel_ignores_case
            [where enc = "str ''autos''" and env = example_env and w = example_world
               and a = example_args and raw = "str ''CREATE TABLE t (user_name TEXT, x INT);''",
             THEN conjunct2, THEN conjunct2, THEN mp, OF n3, THEN conjunct2, THEN conjunct2,
             THEN conjunct1, THEN mp, OF conjI [OF f c3]]
    unfolding m3 by (simp add: logging_def lg str_def)
  from first second third show ?thesis by (intro conjI)
qed

text \<open>
  Claim C10. The strings the pass puts into the output are, in order, the prefix followed by
  the decimal strings of 1, 2, \<dots>, for every prefix: the prefix is there character by
  character, a backslash or \<open>\g<0>\<close> or \<open>\1\<close> in it included, and nothing of the matched text
  is.
\<close>

theorem callback_inserts_prefix_verbatim:
  "items (fst (sub_pieces p pre t))
     = map (\<lambda>k. pre @ str_int (1 + int k)) [0..<length (finditer p t)]
   \<and> fst (sub_pass p pre t) = join (fst (sub_pieces p pre t))"
  using subx_replace_column_name [of p pre t 0 False 1]
  by (simp add: sub_pass_def sub_pieces_def finditer_def case_prod_beta)

theorem callback_inserts_prefix_verbatim_witness:
  "items (fst (sub_pieces (rmatch True (lits (str ''name''))) (92 # str ''g<0>'') (str ''a NAME b name'')))
     = [92 # str ''g<0>1'', 92 # str ''g<0>2'']
   \<and> fst (sub_pass (rmatch True (lits (str ''name''))) (92 # str ''g<0>'') (str ''a NAME b name''))
     = str ''a '' @ 92 # str ''g<0>1 b '' @ 92 # str ''g<0>2''"
proof -
  have f: "finditer (rmatch True (lits (str ''name''))) (str ''a NAME b name'') = [(2, 6), (9, 13)]"
    by code_simp
  have m: "map (\<lambda>k. (92 # str ''g<0>'') @ str_int (1 + int k)) [0..<length [(2::nat, 6::nat), (9, 13)]]
      = [92 # str ''g<0>1'', 92 # str ''g<0>2'']"
    by code_simp
  have j: "join (fst (sub_pieces (rmatch True (lits (str ''name''))) (92 # str ''g<0>'') (str ''a NAME b name'')))
      = str ''a '' @ 92 # str ''g<0>1 b '' @ 92 # str ''g<0>2''"
    by code_simp
  from callback_inserts_prefix_verbatim [of "rmatch True (lits (str ''name''))" "92 # str ''g<0>''" "str ''a NAME b name''"]
  show ?thesis unfolding f m j by simp
qed

end
